theory Spec2Isabelle
  imports Complex_Main "HOL-Library.List_Lexorder" "HOL-Library.Char_ord"
begin

section \<open>Go values used by gursShp2geoJson.go\<close>

text \<open>
  This first part writes out what the program uses of the Go language, of its standard
  library and of the packages go-shp and go.geojson, as their documentation describes it;
  the program itself begins with the section after it.

  A Go string is a sequence of bytes: \<open>string\<close> (a list of 8-bit characters). \<open>len\<close>
  and slicing count bytes; \<open><\<close> on strings is the bytewise lexicographic order, which is
  the order of \<open>List_Lexorder\<close> over \<open>Char_ord\<close>. A \<open>float64\<close> coordinate is modelled by
  the real number it denotes (comparison with the constant 14.5, which a float64 holds
  exactly, is then the comparison of the code); NaN and the infinities are not modelled.
\<close>

type_synonym rune = nat

text \<open>
  The ways the program stops without a result: \<open>log.Fatal\<close> after a failed \<open>shp.Open\<close>, and
  the run-time panics of a slice expression out of range, of an index out of range
  (reading a DBF column that the file does not have) and of a failed type assertion.
\<close>

datatype abort = OpenFailed | SliceBoundsOutOfRange | IndexOutOfRange | InterfaceConversion

text \<open>
  What the program takes from Go's libraries and what this development does not fix:
  the table of decimal digits (category Nd) above Latin-1 behind \<open>unicode.IsDigit\<close>, the
  upper half of the Windows-1250 table of \<open>golang.org/x/text/encoding/charmap\<close> (byte to
  the UTF-8 encoding of its character) and the result of \<open>strings.ToLower\<close> on a string that
  is not pure ASCII. Every function below that depends on one of them takes the record.
\<close>

record golib =
  unicodeNd :: "rune \<Rightarrow> bool"
  windows1250High :: "char \<Rightarrow> string"
  unicodeToLower :: "string \<Rightarrow> string"

text \<open>An instance for evaluating the functions on ASCII input, where no field is consulted.\<close>

definition asciiLib :: golib where
  "asciiLib = \<lparr>unicodeNd = (\<lambda>r. False), windows1250High = (\<lambda>c. ''?''), unicodeToLower = (\<lambda>s. s)\<rparr>"

subsection \<open>Package unicode/utf8\<close>

definition RuneError :: rune where
  "RuneError = 0xFFFD"

definition RuneSelf :: nat where
  "RuneSelf = 0x80"

definition UTFMax :: int where
  "UTFMax = 4"

text \<open>The \<open>first\<close> table: the length of the encoding a leading byte announces, 0 when the
  byte cannot lead one (the entry \<open>xx\<close>).\<close>

definition leadSize :: "nat \<Rightarrow> nat" where
  "leadSize b =
     (if 0xC2 \<le> b \<and> b \<le> 0xDF then 2
      else if 0xE0 \<le> b \<and> b \<le> 0xEF then 3
      else if 0xF0 \<le> b \<and> b \<le> 0xF4 then 4
      else 0)"

text \<open>The \<open>acceptRanges\<close> table: the range of the second byte after a leading byte.\<close>

definition acceptLo :: "nat \<Rightarrow> nat" where
  "acceptLo b = (if b = 0xE0 then 0xA0 else if b = 0xF0 then 0x90 else 0x80)"

definition acceptHi :: "nat \<Rightarrow> nat" where
  "acceptHi b = (if b = 0xED then 0x9F else if b = 0xF4 then 0x8F else 0xBF)"

definition contByte :: "nat \<Rightarrow> bool" where
  "contByte b \<longleftrightarrow> 0x80 \<le> b \<and> b \<le> 0xBF"

definition RuneStart :: "nat \<Rightarrow> bool" where
  "RuneStart b \<longleftrightarrow> \<not> contByte b"

text \<open>\<open>utf8.DecodeRuneInString\<close>: the first rune of the string and its width in bytes;
  \<open>(RuneError, 0)\<close> for the empty string and \<open>(RuneError, 1)\<close> for an invalid encoding.\<close>

definition DecodeRuneInString :: "string \<Rightarrow> rune \<times> nat" where
  "DecodeRuneInString s =
     (let bs = map of_char s; n = length bs in
      if n < 1 then (RuneError, 0)
      else let s0 = bs ! 0 in
        if s0 < RuneSelf then (s0, 1)
        else if leadSize s0 = 0 then (RuneError, 1)
        else let sz = leadSize s0 in
          if n < sz then (RuneError, 1)
          else let s1 = bs ! 1 in
            if s1 < acceptLo s0 \<or> acceptHi s0 < s1 then (RuneError, 1)
            else if sz \<le> 2 then ((s0 mod 32) * 64 + s1 mod 64, 2)
            else let s2 = bs ! 2 in
              if \<not> contByte s2 then (RuneError, 1)
              else if sz \<le> 3 then ((s0 mod 16) * 4096 + (s1 mod 64) * 64 + s2 mod 64, 3)
              else let s3 = bs ! 3 in
                if \<not> contByte s3 then (RuneError, 1)
                else ((s0 mod 8) * 262144 + (s1 mod 64) * 4096 + (s2 mod 64) * 64 + s3 mod 64, 4))"

text \<open>The backward scan of \<open>utf8.DecodeLastRuneInString\<close> for the start of the last rune:
  \<open>for start--; start >= lim; start-- { if RuneStart(s[start]) { break } }\<close>, entered
  with \<open>start\<close> already decremented.\<close>

function lastRuneStart :: "nat list \<Rightarrow> int \<Rightarrow> int \<Rightarrow> int" where
  "lastRuneStart bs lm start =
     (if start \<ge> lm
      then (if RuneStart (bs ! nat start) then start else lastRuneStart bs lm (start - 1))
      else start)"
  by pat_completeness auto
termination
  by (relation "measure (\<lambda>(bs, lm, start). nat (start - lm + 1))") auto

declare lastRuneStart.simps [simp del]

definition DecodeLastRuneInString :: "string \<Rightarrow> rune \<times> nat" where
  "DecodeLastRuneInString s =
     (let bs = map of_char s; end = int (length bs) in
      if end = 0 then (RuneError, 0)
      else let r = bs ! nat (end - 1) in
        if r < RuneSelf then (r, 1)
        else let lm = (if end - UTFMax < 0 then 0 else end - UTFMax);
                 start0 = lastRuneStart bs lm (end - 2);
                 start = (if start0 < 0 then 0 else start0);
                 (r, size) = DecodeRuneInString (drop (nat start) s)
             in if start + int size \<noteq> end then (RuneError, 1) else (r, size))"

lemma DecodeRuneInString_size_pos: "s \<noteq> [] \<Longrightarrow> 0 < snd (DecodeRuneInString s)"
  by (cases s) (simp_all add: DecodeRuneInString_def Let_def)

text \<open>\<open>utf8.RuneCountInString\<close>: the number of runes, an invalid or short encoding counting
  as one rune of one byte.\<close>

function RuneCountInString :: "string \<Rightarrow> nat" where
  "RuneCountInString s =
     (if s = [] then 0 else Suc (RuneCountInString (drop (snd (DecodeRuneInString s)) s)))"
  by pat_completeness auto
termination
proof (relation "measure length")
  show "wf (measure length)" by simp
next
  fix s :: string
  assume "s \<noteq> []"
  then show "(drop (snd (DecodeRuneInString s)) s, s) \<in> measure length"
    using DecodeRuneInString_size_pos [of s] by simp
qed

declare RuneCountInString.simps [simp del]

subsection \<open>Packages unicode, fmt and strings\<close>

text \<open>\<open>unicode.IsDigit\<close>: within Latin-1 the ASCII digits, above it the table.\<close>

definition IsDigit :: "golib \<Rightarrow> rune \<Rightarrow> bool" where
  "IsDigit lib r = (if r \<le> 0xFF then 0x30 \<le> r \<and> r \<le> 0x39 else unicodeNd lib r)"

text \<open>The verb \<open>%0Ns\<close> of \<open>fmt.Sprintf\<close>: the string, padded on the left with zeros to a width
  of \<open>N\<close> runes, and never cut.\<close>

definition fmtPadZero :: "nat \<Rightarrow> string \<Rightarrow> string" where
  "fmtPadZero wid s = replicate (wid - RuneCountInString s) (CHR ''0'') @ s"


text \<open>\<open>strings.Trim(s, cutset)\<close> for a cutset of one ASCII byte, which the library computes as
  \<open>trimLeftByte(trimRightByte(s, c), c)\<close>.\<close>

definition trimRightByte :: "string \<Rightarrow> char \<Rightarrow> string" where
  "trimRightByte s c = rev (dropWhile (\<lambda>x. x = c) (rev s))"

definition trimLeftByte :: "string \<Rightarrow> char \<Rightarrow> string" where
  "trimLeftByte s c = dropWhile (\<lambda>x. x = c) s"

definition stringsTrim :: "string \<Rightarrow> char \<Rightarrow> string" where
  "stringsTrim s c = trimLeftByte (trimRightByte s c) c"

definition NUL :: char where
  "NUL = CHR 0x00"

text \<open>\<open>strings.ToLower\<close>: a pure ASCII string has its letters A to Z lowered byte by byte;
  any other string goes through \<open>unicode.ToLower\<close> rune by rune.\<close>

definition asciiLower :: "char \<Rightarrow> char" where
  "asciiLower c = (if CHR ''A'' \<le> c \<and> c \<le> CHR ''Z'' then char_of (of_char c + (32::nat)) else c)"

definition ToLower :: "golib \<Rightarrow> string \<Rightarrow> string" where
  "ToLower lib s =
     (if list_all (\<lambda>c. of_char c < RuneSelf) s then map asciiLower s else unicodeToLower lib s)"

subsection \<open>Control flow, maps, slices and interface values\<close>

text \<open>Sequencing of two steps of which the first may stop the program.\<close>

definition andThen :: "abort + 'a \<Rightarrow> ('a \<Rightarrow> abort + 'b) \<Rightarrow> abort + 'b" where
  "andThen x f = (case x of Inl e \<Rightarrow> Inl e | Inr v \<Rightarrow> f v)"

type_synonym gomap = "string \<rightharpoonup> string"

text \<open>The index expression \<open>m[k]\<close> on a \<open>map[string]string\<close>: the zero value \<open>""\<close> for a key
  that is not in the map. The form \<open>v, ok := m[k]\<close> gives the same \<open>v\<close>, and \<open>ok\<close> says whether
  the key is there.\<close>

definition mapIndex :: "gomap \<Rightarrow> string \<Rightarrow> string" where
  "mapIndex m k = (case m k of None \<Rightarrow> [] | Some v \<Rightarrow> v)"

definition mapHas :: "gomap \<Rightarrow> string \<Rightarrow> bool" where
  "mapHas m k = (m k \<noteq> None)"

text \<open>The slice expression \<open>s[lo:hi]\<close> on a string, which panics out of range.\<close>

definition sliceString :: "string \<Rightarrow> nat \<Rightarrow> nat \<Rightarrow> abort + string" where
  "sliceString s lo hi =
     (if lo \<le> hi \<and> hi \<le> length s then Inr (take (hi - lo) (drop lo s)) else Inl SliceBoundsOutOfRange)"

text \<open>A value of type \<open>interface{}\<close>, as far as JSON properties go, and the type assertion
  \<open>x.(string)\<close>, which panics on anything that is not a string (\<open>nil\<close> included).\<close>

datatype any = AnyNil | AnyString string | AnyFloat real | AnyBool bool

definition assertString :: "any \<Rightarrow> abort + string" where
  "assertString x = (case x of AnyString s \<Rightarrow> Inr s | _ \<Rightarrow> Inl InterfaceConversion)"

subsection \<open>Package go-shp: the reader of a shapefile\<close>

text \<open>
  A shapefile as the program reads it: the names of the DBF columns and, per record, the
  column values (what \<open>Attribute(n)\<close> returns: the bytes of the field without the blanks
  around them, still in Windows-1250) and the bounding box of the shape. \<open>Attribute(n)\<close>
  for a column the file does not have is an index out of range. A file that cannot be
  opened is \<open>None\<close>.
\<close>

record shpRecord =
  attrs :: "string list"
  bboxMinX :: real
  bboxMinY :: real

record shapefile =
  fieldNames :: "string list"
  rows :: "shpRecord list"

definition Attribute :: "shpRecord \<Rightarrow> int \<Rightarrow> abort + string" where
  "Attribute r n =
     (if 0 \<le> n \<and> nat n < length (attrs r) then Inr (attrs r ! nat n) else Inl IndexOutOfRange)"

subsection \<open>Package go.geojson: a point feature\<close>

record feature =
  coordinates :: "real list"
  properties :: "string \<rightharpoonup> any"

definition NewPointFeature :: "real list \<Rightarrow> feature" where
  "NewPointFeature c = \<lparr>coordinates = c, properties = Map.empty\<rparr>"

definition SetProperty :: "feature \<Rightarrow> string \<Rightarrow> any \<Rightarrow> feature" where
  "SetProperty f key v = f\<lparr>properties := (properties f)(key \<mapsto> v)\<rparr>"

text \<open>The index expression \<open>f.Properties[key]\<close>: \<open>nil\<close> for a key that is not in the map.\<close>

definition propertyAt :: "feature \<Rightarrow> string \<Rightarrow> any" where
  "propertyAt f key = (case properties f key of None \<Rightarrow> AnyNil | Some v \<Rightarrow> v)"

subsection \<open>Package math\<close>

text \<open>\<open>math.Round\<close>: the nearest integer, halves away from zero (in exact arithmetic).\<close>

definition mathRound :: "real \<Rightarrow> real" where
  "mathRound x = (if 0 \<le> x then of_int \<lfloor>x + 1 / 2\<rfloor> else - of_int \<lfloor>- x + 1 / 2\<rfloor>)"

section \<open>The program\<close>

subsection \<open>Constants\<close>

definition roundingFactor :: real where
  "roundingFactor = 10000000"

definition tagHousenumber :: string where
  "tagHousenumber = ''addr:housenumber''"

definition tagCity :: string where
  "tagCity = ''addr:city''"

definition tagPostCode :: string where
  "tagPostCode = ''addr:postcode''"

definition tagStreet :: string where
  "tagStreet = ''addr:street''"

definition tagPlace :: string where
  "tagPlace = ''addr:place''"

definition tagSourceDate :: string where
  "tagSourceDate = ''source:addr:date''"

definition tagSource :: string where
  "tagSource = ''source:addr''"

definition tagSourceValue :: string where
  "tagSourceValue = ''GURS''"

definition tagRef :: string where
  "tagRef = ''ref:GURS:HS_MID''"

definition tagLangPostfixSlovenian :: string where
  "tagLangPostfixSlovenian = '':sl''"

definition tagLangPostfixItalian :: string where
  "tagLangPostfixItalian = '':it''"

definition tagLangPostfixHungarian :: string where
  "tagLangPostfixHungarian = '':hu''"

definition bilingualSeparator :: string where
  "bilingualSeparator = '' / ''"

lemmas tag_defs =
  tagHousenumber_def tagCity_def tagPostCode_def tagStreet_def tagPlace_def tagSourceDate_def
  tagSource_def tagSourceValue_def tagRef_def tagLangPostfixSlovenian_def
  tagLangPostfixItalian_def tagLangPostfixHungarian_def bilingualSeparator_def

subsection \<open>DecodeWindows1250\<close>

text \<open>The charmap decoder copies an ASCII byte and replaces any other byte by the UTF-8
  encoding of its character; the error of \<open>dec.Bytes\<close> is dropped.\<close>

definition DecodeWindows1250bytes :: "golib \<Rightarrow> string \<Rightarrow> string" where
  "DecodeWindows1250bytes lib enc =
     concat (map (\<lambda>b. if of_char b < RuneSelf then [b] else windows1250High lib b) enc)"

definition DecodeWindows1250 :: "golib \<Rightarrow> string \<Rightarrow> string" where
  "DecodeWindows1250 lib str = DecodeWindows1250bytes lib str"

subsection \<open>readShapefileToMap\<close>

text \<open>The loop over \<open>shapeReader.Fields()\<close> that looks for the two columns: \<open>i\<close> is the index
  of the field at hand, the pair the indices found so far (\<open>-1\<close>: not yet), and the loop
  breaks once both are set.\<close>

fun findColumns :: "string list \<Rightarrow> int \<Rightarrow> string \<Rightarrow> string \<Rightarrow> int \<times> int \<Rightarrow> int \<times> int" where
  "findColumns [] i keyColumnName valueColumnName (keyColumnIndex, valueColumnIndex) =
     (keyColumnIndex, valueColumnIndex)"
| "findColumns (v # vs) i keyColumnName valueColumnName (keyColumnIndex, valueColumnIndex) =
     (let (keyColumnIndex, valueColumnIndex) =
        (if v = keyColumnName then (i, valueColumnIndex)
         else if v = valueColumnName then (keyColumnIndex, i)
         else (keyColumnIndex, valueColumnIndex))
      in if valueColumnIndex \<noteq> - 1 \<and> keyColumnIndex \<noteq> - 1
         then (keyColumnIndex, valueColumnIndex)
         else findColumns vs (i + 1) keyColumnName valueColumnName (keyColumnIndex, valueColumnIndex))"

text \<open>The loop over the records, \<open>result\<close> being the map built so far.\<close>

fun readRows :: "golib \<Rightarrow> int \<Rightarrow> int \<Rightarrow> shpRecord list \<Rightarrow> gomap \<Rightarrow> abort + gomap" where
  "readRows lib keyColumnIndex valueColumnIndex [] result = Inr result"
| "readRows lib keyColumnIndex valueColumnIndex (r # rs) result =
     andThen (Attribute r valueColumnIndex) (\<lambda>raw.
       let valueUtf = stringsTrim (DecodeWindows1250 lib raw) NUL in
       if length valueUtf > 0
       then andThen (Attribute r keyColumnIndex) (\<lambda>rawKey.
              readRows lib keyColumnIndex valueColumnIndex rs
                (result(DecodeWindows1250 lib rawKey \<mapsto> valueUtf)))
       else readRows lib keyColumnIndex valueColumnIndex rs result)"

text \<open>The sample records and the warning of the source are log output only.\<close>

definition readShapefileToMap :: "golib \<Rightarrow> shapefile option \<Rightarrow> string \<Rightarrow> string \<Rightarrow> abort + gomap" where
  "readShapefileToMap lib shapeFile keyColumnName valueColumnName =
     (case shapeFile of
        None \<Rightarrow> Inl OpenFailed
      | Some shapeReader \<Rightarrow>
          (let (keyColumnIndex, valueColumnIndex) =
             findColumns (fieldNames shapeReader) 0 keyColumnName valueColumnName (- 1, - 1)
           in readRows lib keyColumnIndex valueColumnIndex (rows shapeReader) Map.empty))"

subsection \<open>The lookup maps\<close>

text \<open>The six global maps, filled by \<open>ReadLookups\<close> before \<open>ReadShapefile\<close> runs and only
  read afterwards; here they are passed to the functions that read them.\<close>

record lookups =
  ptCodeMap :: gomap
  ptNameMap :: gomap
  ulNameMap :: gomap
  ulNameDjMap :: gomap
  naNameMap :: gomap
  naNameDjMap :: gomap

subsection \<open>ApplyTagLanguagePostfix\<close>

definition ItalianHungarianSplitLongitude :: real where
  "ItalianHungarianSplitLongitude = 14.5"

definition ApplyTagLanguagePostfix :: "string \<Rightarrow> real \<Rightarrow> string" where
  "ApplyTagLanguagePostfix prefix longitude =
     (if longitude > ItalianHungarianSplitLongitude
      then prefix @ tagLangPostfixHungarian
      else prefix @ tagLangPostfixItalian)"

subsection \<open>ReadShapefile\<close>

text \<open>Lines 225 to 256: the street tags when the street identifier has a name, the place
  tags otherwise. Column 6 is read only on the second path.\<close>

definition setNameTags :: "lookups \<Rightarrow> shpRecord \<Rightarrow> real \<Rightarrow> feature \<Rightarrow> abort + feature" where
  "setNameTags lk r lon f =
     andThen (Attribute r 5) (\<lambda>ulMid.
       let ulName = mapIndex (ulNameMap lk) ulMid; streetNameExists = mapHas (ulNameMap lk) ulMid in
       if streetNameExists
       then
         (let ulNameDj = mapIndex (ulNameDjMap lk) ulMid;
              bilingualStreetNameExists = mapHas (ulNameDjMap lk) ulMid in
          if bilingualStreetNameExists \<and> ulNameDj \<noteq> ulName
          then
            (let f = SetProperty f tagStreet (AnyString (ulName @ bilingualSeparator @ ulNameDj));
                 f = SetProperty f (tagStreet @ tagLangPostfixSlovenian) (AnyString ulName);
                 f = SetProperty f (ApplyTagLanguagePostfix tagStreet lon) (AnyString ulNameDj)
             in Inr f)
          else Inr (SetProperty f tagStreet (AnyString ulName)))
       else
         andThen (Attribute r 6) (\<lambda>naMid.
           let naName = mapIndex (naNameMap lk) naMid;
               naNameDj = mapIndex (naNameDjMap lk) naMid;
               bilingualPlaceNameExists = mapHas (naNameDjMap lk) naMid in
           if bilingualPlaceNameExists \<and> naNameDj \<noteq> naName
           then
             (let f = SetProperty f tagPlace (AnyString (naName @ bilingualSeparator @ naNameDj));
                  f = SetProperty f (tagPlace @ tagLangPostfixSlovenian) (AnyString naName);
                  f = SetProperty f (ApplyTagLanguagePostfix tagPlace lon) (AnyString naNameDj)
              in Inr f)
           else Inr (SetProperty f tagPlace (AnyString naName))))"

text \<open>Line 265: \<open>dateOd[0:4] + "-" + dateOd[4:6] + "-" + dateOd[6:8]\<close>.\<close>

definition isoDate :: "string \<Rightarrow> abort + string" where
  "isoDate dateOd =
     andThen (sliceString dateOd 0 4) (\<lambda>y.
     andThen (sliceString dateOd 4 6) (\<lambda>m.
     andThen (sliceString dateOd 6 8) (\<lambda>d.
       Inr (y @ ''-'' @ m @ ''-'' @ d))))"

text \<open>The body of the loop for a record that passed the validity check (lines 196 to
  271): the feature that line 273 appends, or the panic that ends the run. The two
  coordinates are rounded in exact arithmetic where the code rounds in \<open>float64\<close>, so
  for a raw coordinate whose product with the rounding factor lies next to a half the
  stored value can differ from the code's in the last decimal; the statements below read
  the stored coordinate only, never the raw one.\<close>

definition buildFeature :: "golib \<Rightarrow> lookups \<Rightarrow> shpRecord \<Rightarrow> abort + feature" where
  "buildFeature lib lk r =
     (let lat = mathRound (bboxMinY r * roundingFactor) / roundingFactor;
          lon = mathRound (bboxMinX r * roundingFactor) / roundingFactor;
          f = NewPointFeature [lat, lon]
      in
      andThen (Attribute r 4) (\<lambda>labela.
      let f = SetProperty f tagHousenumber (AnyString (ToLower lib (DecodeWindows1250 lib labela))) in
      andThen (setNameTags lk r lon f) (\<lambda>f.
      andThen (Attribute r 8) (\<lambda>ptMid.
      let f = SetProperty f tagPostCode (AnyString (mapIndex (ptCodeMap lk) ptMid));
          f = SetProperty f tagCity (AnyString (mapIndex (ptNameMap lk) ptMid)) in
      andThen (Attribute r 10) (\<lambda>dateOd.
      andThen (isoDate dateOd) (\<lambda>iso.
      let f = SetProperty f tagSourceDate (AnyString iso);
          f = SetProperty f tagSource (AnyString tagSourceValue) in
      andThen (Attribute r 1) (\<lambda>hsMid.
      Inr (SetProperty f tagRef (AnyString hsMid)))))))))"

text \<open>The loop over the records of the primary file, \<open>featureCollection\<close> being the features
  appended so far (lines 171 to 274).\<close>

fun readRecords :: "golib \<Rightarrow> lookups \<Rightarrow> shpRecord list \<Rightarrow> feature list \<Rightarrow> abort + feature list" where
  "readRecords lib lk [] featureCollection = Inr featureCollection"
| "readRecords lib lk (r # rs) featureCollection =
     andThen (Attribute r 12) (\<lambda>status.
       if status \<noteq> ''V''
       then readRecords lib lk rs featureCollection
       else andThen (buildFeature lib lk r) (\<lambda>f.
              readRecords lib lk rs (featureCollection @ [f])))"

definition ReadShapefile :: "golib \<Rightarrow> lookups \<Rightarrow> shapefile option \<Rightarrow> abort + feature list" where
  "ReadShapefile lib lk shapeFile =
     (case shapeFile of
        None \<Rightarrow> Inl OpenFailed
      | Some shapeReader \<Rightarrow> readRecords lib lk (rows shapeReader) [])"

subsection \<open>NormalizeHouseNumber\<close>

definition NormalizeHouseNumber :: "golib \<Rightarrow> string \<Rightarrow> string" where
  "NormalizeHouseNumber lib housenumber =
     (let (lastRune, n) = DecodeLastRuneInString housenumber in
      if n = 0 \<or> IsDigit lib lastRune
      then fmtPadZero 3 housenumber @ ''_''
      else fmtPadZero 4 housenumber)"

subsection \<open>The comparison function of SortFeatureCollection\<close>

text \<open>One of the two optional tiers of the comparison (lines 292 to 303 for the street,
  305 to 316 for the place): \<open>Some b\<close> when the tier decides and the function returns \<open>b\<close>,
  \<open>None\<close> when it falls through to the next tier.\<close>

definition compareTag :: "string \<Rightarrow> feature \<Rightarrow> feature \<Rightarrow> abort + bool option" where
  "compareTag tag fi fj =
     (if propertyAt fi tag \<noteq> AnyNil
      then
        (if propertyAt fj tag \<noteq> AnyNil
         then
           andThen (assertString (propertyAt fi tag)) (\<lambda>left.
           andThen (assertString (propertyAt fj tag)) (\<lambda>right.
             if left < right then Inr (Some True)
             else if left > right then Inr (Some False)
             else Inr None))
         else Inr None)
      else Inr None)"

text \<open>The function passed to \<open>sort.Slice\<close>, at the features with the indices \<open>i\<close> and \<open>j\<close>.
  \<open>SortFeatureCollection\<close> does nothing but this call; the sorting algorithm behind
  \<open>sort.Slice\<close> belongs to the library, which promises no stable order, and is not
  written out here.\<close>

definition sortLess :: "golib \<Rightarrow> feature \<Rightarrow> feature \<Rightarrow> abort + bool" where
  "sortLess lib fi fj =
     andThen (assertString (propertyAt fi tagPostCode)) (\<lambda>PostLeft.
     andThen (assertString (propertyAt fj tagPostCode)) (\<lambda>PostRight.
       if PostLeft < PostRight then Inr True
       else if PostLeft > PostRight then Inr False
       else
         andThen (compareTag tagStreet fi fj) (\<lambda>street.
           case street of
             Some b \<Rightarrow> Inr b
           | None \<Rightarrow>
               andThen (compareTag tagPlace fi fj) (\<lambda>place.
                 case place of
                   Some b \<Rightarrow> Inr b
                 | None \<Rightarrow>
                     andThen (assertString (propertyAt fi tagHousenumber)) (\<lambda>hl.
                     andThen (assertString (propertyAt fj tagHousenumber)) (\<lambda>hr.
                       Inr (NormalizeHouseNumber lib hl < NormalizeHouseNumber lib hr)))))))"

section \<open>Notions of the statements and sample data\<close>

text \<open>The keys of a tag family: the tag itself and the tag with one of the three language
  postfixes.\<close>

definition tagFamily :: "string \<Rightarrow> string set" where
  "tagFamily tag =
     {tag, tag @ tagLangPostfixSlovenian, tag @ tagLangPostfixItalian, tag @ tagLangPostfixHungarian}"

text \<open>What the loader is to build, in the words of its contract: the decoded key of a
  record, its decoded value with the NUL bytes trimmed off and, of every record whose
  value is not empty, the pair of the two, in the order of the records.\<close>

definition entryKey :: "golib \<Rightarrow> nat \<Rightarrow> shpRecord \<Rightarrow> string" where
  "entryKey lib k r = DecodeWindows1250 lib (attrs r ! k)"

definition entryValue :: "golib \<Rightarrow> nat \<Rightarrow> shpRecord \<Rightarrow> string" where
  "entryValue lib v r = stringsTrim (DecodeWindows1250 lib (attrs r ! v)) NUL"

definition tableEntries :: "golib \<Rightarrow> nat \<Rightarrow> nat \<Rightarrow> shpRecord list \<Rightarrow> (string \<times> string) list" where
  "tableEntries lib k v rs =
     [(entryKey lib k r, entryValue lib v r). r \<leftarrow> rs, entryValue lib v r \<noteq> []]"

text \<open>A record of the primary file by the columns that the comment of lines 202 to 220
  gives (the columns the program does not read are left empty), the primary file with
  that header, a row of a lookup file, a lookup file with a repeated key and with empty
  values, and a set of lookup maps.\<close>

definition hsRecord ::
  "string \<Rightarrow> string \<Rightarrow> string \<Rightarrow> string \<Rightarrow> string \<Rightarrow> string \<Rightarrow> string \<Rightarrow> real \<Rightarrow> real \<Rightarrow> shpRecord" where
  "hsRecord hsMid labela ulMid naMid ptMid dOd status x y =
     \<lparr>attrs = [''SI'', hsMid, '''', '''', labela, ulMid, naMid, '''', ptMid, '''', dOd, '''', status, '''', ''''],
      bboxMinX = x, bboxMinY = y\<rparr>"

definition hsFile :: "shpRecord list \<Rightarrow> shapefile" where
  "hsFile rs =
     \<lparr>fieldNames = [''ENOTA'', ''HS_MID'', ''HS'', ''HD'', ''LABELA'', ''UL_MID'', ''NA_MID'', ''OB_MID'',
        ''PT_MID'', ''PO_MID'', ''D_OD'', ''DV_OD'', ''STATUS'', ''Y_C'', ''X_C''],
      rows = rs\<rparr>"

definition dbfRow :: "string list \<Rightarrow> shpRecord" where
  "dbfRow vals = \<lparr>attrs = vals, bboxMinX = 0, bboxMinY = 0\<rparr>"

definition streetsFile :: shapefile where
  "streetsFile =
     \<lparr>fieldNames = [''UL_MID'', ''UL_UIME'', ''UL_DJ''],
      rows = [dbfRow [''100'', ''Main St'', [NUL, NUL]],
              dbfRow [''101'', '''', ''''],
              dbfRow [''100'', ''High St'', '''']]\<rparr>"

definition sampleLookups :: lookups where
  "sampleLookups =
     \<lparr>ptCodeMap = [''1'' \<mapsto> ''1000''],
      ptNameMap = [''1'' \<mapsto> ''Ljubljana''],
      ulNameMap = [''10'' \<mapsto> ''Glavna ulica'', ''11'' \<mapsto> ''Glavna ulica'', ''12'' \<mapsto> ''Cesta''],
      ulNameDjMap = [''11'' \<mapsto> ''Fo utca''],
      naNameMap = [''20'' \<mapsto> ''Vas''],
      naNameDjMap = [''21'' \<mapsto> ''Falu'']\<rparr>"

section \<open>Properties of the library functions\<close>

subsection \<open>Counting runes\<close>

lemma RuneCount_Nil: "RuneCountInString [] = 0"
  by (simp add: RuneCountInString.simps)

lemma Decode_ascii_Cons: "of_char c < (128::nat) \<Longrightarrow> DecodeRuneInString (c # s) = (of_char c, 1)"
  by (simp add: DecodeRuneInString_def RuneSelf_def Let_def)

lemma RuneCount_ascii_Cons:
  "of_char c < (128::nat) \<Longrightarrow> RuneCountInString (c # s) = Suc (RuneCountInString s)"
  by (subst RuneCountInString.simps) (simp add: Decode_ascii_Cons)

lemma RuneCount_replicate_zero:
  "RuneCountInString (replicate k (CHR ''0'') @ s) = k + RuneCountInString s"
  by (induction k) (simp_all add: RuneCount_ascii_Cons)

lemma leadSize_cases: "leadSize b = 0 \<or> leadSize b = 2 \<or> leadSize b = 3 \<or> leadSize b = 4"
  by (simp add: leadSize_def)

lemma Decode_size_le: "s \<noteq> [] \<Longrightarrow> snd (DecodeRuneInString s) \<le> length s"
  using leadSize_cases [of "of_char (hd s)"]
  by (cases s) (auto simp add: DecodeRuneInString_def Let_def Suc_le_eq not_less)

lemma acceptLo_ge: "128 \<le> acceptLo b"
  by (simp add: acceptLo_def)

lemma Decode_snoc_ascii:
  assumes "of_char c < (128::nat)" "s \<noteq> []"
  shows "snd (DecodeRuneInString (s @ [c])) = snd (DecodeRuneInString s)"
proof -
  obtain a t where s: "s = a # t" using assms(2) by (cases s) auto
  have c1: "of_char c < acceptLo (of_char a)" using acceptLo_ge [of "of_char a"] assms(1) by simp
  have c2: "\<not> contByte (of_char c)" using assms(1) by (simp add: contByte_def)
  consider "leadSize (of_char a) = 0" | "leadSize (of_char a) = 2" | "leadSize (of_char a) = 3" | "leadSize (of_char a) = 4"
    using leadSize_cases [of "of_char a"] by auto
  then show ?thesis
  proof cases
    case 1 then show ?thesis by (simp add: s DecodeRuneInString_def Let_def)
  next
    case 2 then show ?thesis using c1 c2
      by (cases t) (simp_all add: s DecodeRuneInString_def Let_def)
  next
    case 3 then show ?thesis using c1 c2
      apply (cases t)
       apply (simp add: s DecodeRuneInString_def Let_def)
      subgoal for b u
        apply (cases u)
         apply (simp_all add: s DecodeRuneInString_def Let_def)
        done
      done
  next
    case 4 then show ?thesis using c1 c2
      apply (cases t)
       apply (simp add: s DecodeRuneInString_def Let_def)
      subgoal for b u
        apply (cases u)
         apply (simp add: s DecodeRuneInString_def Let_def)
        subgoal for d v
          apply (cases v)
           apply (simp_all add: s DecodeRuneInString_def Let_def)
          done
        done
      done
  qed
qed

lemma RuneCount_snoc_ascii:
  "of_char c < (128::nat) \<Longrightarrow> RuneCountInString (s @ [c]) = Suc (RuneCountInString s)"
proof (induction s rule: RuneCountInString.induct)
  case (1 s)
  show ?case
  proof (cases "s = []")
    case True
    then show ?thesis using 1(2) by (simp add: RuneCount_ascii_Cons RuneCount_Nil)
  next
    case False
    let ?k = "snd (DecodeRuneInString s)"
    have k: "?k \<le> length s" using False by (rule Decode_size_le)
    have "RuneCountInString (s @ [c]) = Suc (RuneCountInString (drop (snd (DecodeRuneInString (s @ [c]))) (s @ [c])))"
      by (subst RuneCountInString.simps) simp
    also have "\<dots> = Suc (RuneCountInString (drop ?k s @ [c]))"
      using k by (simp add: Decode_snoc_ascii [OF 1(2) False])
    also have "\<dots> = Suc (Suc (RuneCountInString (drop ?k s)))"
      using 1(1) [OF False 1(2)] by simp
    also have "\<dots> = Suc (RuneCountInString s)"
      using False by (subst (2) RuneCountInString.simps) simp
    finally show ?thesis .
  qed
qed

subsection \<open>The last rune of a string with ASCII bytes put in front\<close>

lemma lastRuneStart_shift:
  "0 \<le> lm \<Longrightarrow> lastRuneStart (x # bs) (lm + 1) (st + 1) = lastRuneStart bs lm st + 1"
proof (induction bs lm st rule: lastRuneStart.induct)
  case (1 bs lm st)
  show ?case
  proof (cases "st \<ge> lm")
    case True
    then have nth: "(x # bs) ! nat (st + 1) = bs ! nat st"
      using 1(2) by (simp add: nat_add_distrib)
    show ?thesis
    proof (cases "RuneStart (bs ! nat st)")
      case True
      then show ?thesis using \<open>st \<ge> lm\<close> nth
        by (simp add: lastRuneStart.simps [of _ _ st] lastRuneStart.simps [of _ _ "st + 1"])
    next
      case False
      then show ?thesis using \<open>st \<ge> lm\<close> nth 1(1) [OF \<open>st \<ge> lm\<close> False 1(2)]
        by (simp add: lastRuneStart.simps [of _ _ st] lastRuneStart.simps [of _ _ "st + 1"])
    qed
  next
    case False
    then show ?thesis
      by (simp add: lastRuneStart.simps [of _ _ st] lastRuneStart.simps [of _ _ "st + 1"])
  qed
qed

lemma lastRuneStart_lower: "lm - 1 \<le> st \<Longrightarrow> lm - 1 \<le> lastRuneStart bs lm st"
proof (induction bs lm st rule: lastRuneStart.induct)
  case (1 bs lm st)
  then show ?case
    by (cases "st \<ge> lm"; cases "RuneStart (bs ! nat st)")
      (simp_all add: lastRuneStart.simps [of _ _ st])
qed

lemma lastRuneStart_none:
  "lastRuneStart bs lm st < lm \<Longrightarrow> lm \<le> i \<Longrightarrow> i \<le> st \<Longrightarrow> \<not> RuneStart (bs ! nat i)"
proof (induction bs lm st rule: lastRuneStart.induct)
  case (1 bs lm st)
  have ge: "st \<ge> lm" using 1(3,4) by simp
  have nrs: "\<not> RuneStart (bs ! nat st)"
    using 1(2) ge by (auto simp add: lastRuneStart.simps [of _ _ st] split: if_splits)
  show ?case
  proof (cases "i = st")
    case True
    then show ?thesis using nrs by simp
  next
    case False
    have "lastRuneStart bs lm (st - 1) < lm"
      using 1(2) ge nrs by (simp add: lastRuneStart.simps [of _ _ st])
    then show ?thesis using 1(1) [OF ge nrs _ 1(3)] False 1(4) by simp
  qed
qed

lemma lastRuneStart_zero:
  "RuneStart x \<Longrightarrow> - 1 \<le> st \<Longrightarrow>
   lastRuneStart (x # bs) 0 (st + 1) =
     (if 0 \<le> lastRuneStart bs 0 st then lastRuneStart bs 0 st + 1 else 0)"
proof (induction bs "0::int" st rule: lastRuneStart.induct)
  case (1 bs st)
  show ?case
  proof (cases "st \<ge> 0")
    case True
    then have nth: "(x # bs) ! nat (st + 1) = bs ! nat st"
      by (simp add: nat_add_distrib)
    show ?thesis
    proof (cases "RuneStart (bs ! nat st)")
      case True
      then show ?thesis using \<open>st \<ge> 0\<close> nth
        by (simp add: lastRuneStart.simps [of _ _ st] lastRuneStart.simps [of _ _ "st + 1"])
    next
      case False
      have "- 1 \<le> st - 1" using \<open>st \<ge> 0\<close> by simp
      then show ?thesis using \<open>st \<ge> 0\<close> nth False 1(1) [OF \<open>st \<ge> 0\<close> False 1(2)]
        by (simp add: lastRuneStart.simps [of _ _ st] lastRuneStart.simps [of _ _ "st + 1"])
    qed
  next
    case False
    then have "st = - 1" using 1(3) by simp
    then show ?thesis using 1(2)
      by (simp add: lastRuneStart.simps [of _ _ "- 1"] lastRuneStart.simps [of _ _ 0])
  qed
qed

lemma Decode_not_RuneStart:
  "s \<noteq> [] \<Longrightarrow> \<not> RuneStart (of_char (hd s)) \<Longrightarrow> DecodeRuneInString s = (RuneError, 1)"
  by (cases s) (auto simp add: DecodeRuneInString_def Let_def RuneStart_def contByte_def
      leadSize_def RuneSelf_def)

lemma Decode_single_high:
  "\<not> of_char b < RuneSelf \<Longrightarrow> DecodeRuneInString [b] = (RuneError, 1)"
  using leadSize_cases [of "of_char b"]
  by (auto simp add: DecodeRuneInString_def Let_def)

lemma DecodeLast_ascii_Cons:
  assumes c: "of_char c < (128::nat)" and s: "s \<noteq> []"
  shows "DecodeLastRuneInString (c # s) = DecodeLastRuneInString s"
proof -
  define bs :: "nat list" where "bs = map of_char s"
  define e where "e = int (length s)"
  define r where "r = bs ! nat (e - 1)"
  define lm where "lm = (if e - UTFMax < 0 then 0 else e - UTFMax)"
  define lm' where "lm' = (if e + 1 - UTFMax < 0 then 0 else e + 1 - UTFMax)"
  define st0 where "st0 = lastRuneStart bs lm (e - 2)"
  define st0' where "st0' = lastRuneStart (of_char c # bs) lm' (e - 1)"
  have e1: "1 \<le> e" using s by (cases s) (simp_all add: e_def)
  have rs: "RuneStart (of_char c)" using c by (simp add: RuneStart_def contByte_def)
  have last': "(of_char c # bs) ! nat (e + 1 - 1) = r"
    using e1 by (cases "nat e") (simp_all add: r_def nat_diff_distrib)
  have lm0: "0 \<le> lm" by (simp add: lm_def)
  have low: "lm - 1 \<le> st0" unfolding st0_def using lm0 e1
    by (intro lastRuneStart_lower) (simp add: lm_def UTFMax_def)
  have shift: "st0' = (if 0 \<le> st0 then st0 + 1 else 0)"
  proof (cases "e - UTFMax < 0")
    case True
    then have "lm = 0" "lm' = 0" by (simp_all add: lm_def lm'_def UTFMax_def)
    then show ?thesis
      using lastRuneStart_zero [OF rs, of "e - 2" bs] e1 by (simp add: st0_def st0'_def)
  next
    case False
    then have l: "lm' = lm + 1" by (simp add: lm_def lm'_def UTFMax_def)
    have "st0' = st0 + 1"
      using lastRuneStart_shift [OF lm0, of "of_char c" bs "e - 2"] by (simp add: st0_def st0'_def l)
    moreover have "st0 < 0 \<Longrightarrow> st0 = - 1" using low lm0 by simp
    ultimately show ?thesis by auto
  qed
  have unfold_s: "DecodeLastRuneInString s =
      (if r < RuneSelf then (r, 1)
       else let start = (if st0 < 0 then 0 else st0);
                (r, size) = DecodeRuneInString (drop (nat start) s)
            in if start + int size \<noteq> e then (RuneError, 1) else (r, size))"
    using s by (simp add: DecodeLastRuneInString_def Let_def bs_def e_def r_def lm_def st0_def)
  have unfold_cs: "DecodeLastRuneInString (c # s) =
      (if r < RuneSelf then (r, 1)
       else let start = (if st0' < 0 then 0 else st0');
                (r, size) = DecodeRuneInString (drop (nat start) (c # s))
            in if start + int size \<noteq> e + 1 then (RuneError, 1) else (r, size))"
  proof -
    have a: "map of_char (c # s) = of_char c # bs" by (simp add: bs_def)
    have b: "int (length (of_char c # bs)) = e + 1" by (simp add: bs_def e_def)
    have d: "e + 1 \<noteq> 0" "e + 1 - 2 = e - 1" using e1 by simp_all
    show ?thesis
      unfolding DecodeLastRuneInString_def Let_def a b last' lm'_def [symmetric]
      unfolding d st0'_def [symmetric]
      using d(1) by simp
  qed
  show ?thesis
  proof (cases "r < RuneSelf")
    case True
    then show ?thesis by (simp add: unfold_s unfold_cs)
  next
    case high: False
    show ?thesis
    proof (cases "0 \<le> st0")
      case True
      then have "drop (nat (st0 + 1)) (c # s) = drop (nat st0) s"
        by (simp add: nat_add_distrib)
      then show ?thesis using True high
        by (simp add: unfold_s unfold_cs shift Let_def split: prod.splits)
    next
      case False
      then have st': "st0' = 0" by (simp add: shift)
      have new: "DecodeLastRuneInString (c # s) = (RuneError, 1)"
        using high e1 c by (simp add: unfold_cs st' Decode_ascii_Cons)
      have lmz: "lm = 0" using low lm0 False by simp
      have old: "DecodeLastRuneInString s = (RuneError, 1)"
      proof (cases "e = 1")
        case True
        then obtain b where sb: "s = [b]" by (cases s) (auto simp add: e_def)
        then have "r = of_char b" by (simp add: r_def bs_def e_def)
        then have "DecodeRuneInString s = (RuneError, 1)"
          using high sb Decode_single_high by simp
        then show ?thesis using high False by (simp add: unfold_s)
      next
        case ne: False
        then have "0 \<le> e - 2" using e1 by simp
        have "st0 < lm" using False lmz by simp
        then have "\<not> RuneStart (bs ! nat 0)"
          unfolding st0_def using lastRuneStart_none [of bs lm "e - 2" 0] lmz \<open>0 \<le> e - 2\<close> by simp
        then have "\<not> RuneStart (of_char (hd s))" using s by (cases s) (simp_all add: bs_def)
        then have "DecodeRuneInString s = (RuneError, 1)" using s by (rule Decode_not_RuneStart [rotated])
        then show ?thesis using high False ne by (simp add: unfold_s)
      qed
      show ?thesis by (simp add: new old)
    qed
  qed
qed

lemma DecodeLast_replicate_zero:
  "s \<noteq> [] \<Longrightarrow> DecodeLastRuneInString (replicate k (CHR ''0'') @ s) = DecodeLastRuneInString s"
  by (induction k) (simp_all add: DecodeLast_ascii_Cons)

lemma DecodeLast_snoc_ascii:
  "of_char c < (128::nat) \<Longrightarrow> DecodeLastRuneInString (s @ [c]) = (of_char c, 1)"
  by (simp add: DecodeLastRuneInString_def Let_def RuneSelf_def nth_append)

lemmas utf8_eval = DecodeLastRuneInString_def DecodeRuneInString_def RuneCountInString.simps
  lastRuneStart.simps RuneSelf_def UTFMax_def Let_def

lemmas normalize_eval = NormalizeHouseNumber_def fmtPadZero_def IsDigit_def utf8_eval
  eval_nat_numeral

section \<open>Properties of the transformer\<close>

subsection \<open>Reading columns and the date\<close>

lemma andThen_simps [simp]:
  "andThen (Inl e) g = Inl e"
  "andThen (Inr v) g = g v"
  by (simp_all add: andThen_def)

lemma Attribute_Inr_iff:
  "Attribute r n = Inr v \<longleftrightarrow> 0 \<le> n \<and> nat n < length (attrs r) \<and> v = attrs r ! nat n"
  by (auto simp add: Attribute_def)

lemma Attribute_below:
  assumes "Attribute r m = Inr v" "0 \<le> n" "n \<le> m"
  shows "Attribute r n = Inr (attrs r ! nat n)"
  using assms by (auto simp add: Attribute_def split: if_splits)

lemma Attribute_nat: "n < length (attrs r) \<Longrightarrow> Attribute r (int n) = Inr (attrs r ! n)"
  by (simp add: Attribute_def)

lemma isoDate_eq:
  "isoDate d =
     (if 8 \<le> length d
      then Inr (take 4 d @ ''-'' @ take 2 (drop 4 d) @ ''-'' @ take 2 (drop 6 d))
      else Inl SliceBoundsOutOfRange)"
  by (simp add: isoDate_def sliceString_def andThen_def)

subsection \<open>The name tags\<close>

lemma ApplyTagLanguagePostfix_cases:
  "ApplyTagLanguagePostfix p lon = p @ tagLangPostfixHungarian \<or> ApplyTagLanguagePostfix p lon = p @ tagLangPostfixItalian"
  by (simp add: ApplyTagLanguagePostfix_def)

lemma setNameTags_total:
  assumes "Attribute r 12 = Inr st"
  shows "\<exists>f'. setNameTags lk r lon f = Inr f'"
  using Attribute_below [OF assms, of 5] Attribute_below [OF assms, of 6]
  by (simp add: setNameTags_def andThen_def Let_def)

lemma setNameTags_not_Inl:
  assumes "Attribute r 12 = Inr st"
  shows "setNameTags lk r lon f \<noteq> Inl e"
  using setNameTags_total [OF assms, of lk lon f] by auto

lemma setNameTags_coordinates:
  "setNameTags lk r lon f = Inr f' \<Longrightarrow> coordinates f' = coordinates f"
  by (auto simp add: setNameTags_def andThen_def Let_def SetProperty_def
      split: sum.splits if_splits)

lemma setNameTags_cases [consumes 1, case_names street streetBilingual place placeBilingual]:
  assumes "setNameTags lk r lon f = Inr f'"
  obtains
    (street) ulMid ulName where
      "Attribute r 5 = Inr ulMid" "ulNameMap lk ulMid = Some ulName"
      "ulNameDjMap lk ulMid = None \<or> ulNameDjMap lk ulMid = Some ulName"
      "properties f' = (properties f)(tagStreet \<mapsto> AnyString ulName)"
  | (streetBilingual) ulMid ulName ulNameDj where
      "Attribute r 5 = Inr ulMid" "ulNameMap lk ulMid = Some ulName"
      "ulNameDjMap lk ulMid = Some ulNameDj" "ulNameDj \<noteq> ulName"
      "properties f' = (properties f)
         (tagStreet \<mapsto> AnyString (ulName @ bilingualSeparator @ ulNameDj),
          tagStreet @ tagLangPostfixSlovenian \<mapsto> AnyString ulName,
          ApplyTagLanguagePostfix tagStreet lon \<mapsto> AnyString ulNameDj)"
  | (place) ulMid naMid where
      "Attribute r 5 = Inr ulMid" "ulNameMap lk ulMid = None" "Attribute r 6 = Inr naMid"
      "naNameDjMap lk naMid = None \<or> naNameDjMap lk naMid = Some (mapIndex (naNameMap lk) naMid)"
      "properties f' = (properties f)(tagPlace \<mapsto> AnyString (mapIndex (naNameMap lk) naMid))"
  | (placeBilingual) ulMid naMid naNameDj where
      "Attribute r 5 = Inr ulMid" "ulNameMap lk ulMid = None" "Attribute r 6 = Inr naMid"
      "naNameDjMap lk naMid = Some naNameDj" "naNameDj \<noteq> mapIndex (naNameMap lk) naMid"
      "properties f' = (properties f)
         (tagPlace \<mapsto> AnyString (mapIndex (naNameMap lk) naMid @ bilingualSeparator @ naNameDj),
          tagPlace @ tagLangPostfixSlovenian \<mapsto> AnyString (mapIndex (naNameMap lk) naMid),
          ApplyTagLanguagePostfix tagPlace lon \<mapsto> AnyString naNameDj)"
proof -
  obtain ulMid where u: "Attribute r 5 = Inr ulMid"
    using assms by (cases "Attribute r 5") (simp_all add: setNameTags_def andThen_def)
  show thesis
  proof (cases "ulNameMap lk ulMid")
    case (Some ulName)
    show thesis
    proof (cases "ulNameDjMap lk ulMid")
      case None
      then have "properties f' = (properties f)(tagStreet \<mapsto> AnyString ulName)"
        using assms u Some
        by (auto simp add: setNameTags_def andThen_def Let_def SetProperty_def mapHas_def mapIndex_def)
      then show thesis using street u Some None by blast
    next
      case dj: (Some ulNameDj)
      show thesis
      proof (cases "ulNameDj = ulName")
        case True
        then have "properties f' = (properties f)(tagStreet \<mapsto> AnyString ulName)"
          using assms u Some dj
          by (auto simp add: setNameTags_def andThen_def Let_def SetProperty_def mapHas_def mapIndex_def)
        then show thesis using street u Some dj True by blast
      next
        case False
        then have "properties f' = (properties f)
         (tagStreet \<mapsto> AnyString (ulName @ bilingualSeparator @ ulNameDj),
          tagStreet @ tagLangPostfixSlovenian \<mapsto> AnyString ulName,
          ApplyTagLanguagePostfix tagStreet lon \<mapsto> AnyString ulNameDj)"
          using assms u Some dj
          by (auto simp add: setNameTags_def andThen_def Let_def SetProperty_def mapHas_def mapIndex_def)
        then show thesis using streetBilingual u Some dj False by blast
      qed
    qed
  next
    case None
    then obtain naMid where n: "Attribute r 6 = Inr naMid"
      using assms u
      by (cases "Attribute r 6") (simp_all add: setNameTags_def andThen_def Let_def mapHas_def)
    show thesis
    proof (cases "naNameDjMap lk naMid")
      case dn: None
      then have "properties f' = (properties f)(tagPlace \<mapsto> AnyString (mapIndex (naNameMap lk) naMid))"
        using assms u None n
        by (auto simp add: setNameTags_def andThen_def Let_def SetProperty_def mapHas_def)
      then show thesis using place u None n dn by blast
    next
      case dj: (Some naNameDj)
      show thesis
      proof (cases "naNameDj = mapIndex (naNameMap lk) naMid")
        case True
        then have "properties f' = (properties f)(tagPlace \<mapsto> AnyString (mapIndex (naNameMap lk) naMid))"
          using assms u None n dj
          by (auto simp add: setNameTags_def andThen_def Let_def SetProperty_def mapHas_def
              mapIndex_def [of "naNameDjMap lk"])
        then show thesis using place u None n dj True by blast
      next
        case False
        then have "properties f' = (properties f)
         (tagPlace \<mapsto> AnyString (mapIndex (naNameMap lk) naMid @ bilingualSeparator @ naNameDj),
          tagPlace @ tagLangPostfixSlovenian \<mapsto> AnyString (mapIndex (naNameMap lk) naMid),
          ApplyTagLanguagePostfix tagPlace lon \<mapsto> AnyString naNameDj)"
          using assms u None n dj
          by (auto simp add: setNameTags_def andThen_def Let_def SetProperty_def mapHas_def
              mapIndex_def [of "naNameDjMap lk"])
        then show thesis using placeBilingual u None n dj False by blast
      qed
    qed
  qed
qed

lemma setNameTags_street_or_place:
  assumes "setNameTags lk r lon f = Inr f'"
  shows "(properties f' tagStreet \<noteq> None \<and> (\<forall>k\<in>tagFamily tagPlace. properties f' k = properties f k))
       \<or> (properties f' tagPlace \<noteq> None \<and> (\<forall>k\<in>tagFamily tagStreet. properties f' k = properties f k))"
  using assms
proof (cases rule: setNameTags_cases)
  case (street ulMid ulName)
  have "properties f' tagStreet \<noteq> None \<and> (\<forall>k\<in>tagFamily tagPlace. properties f' k = properties f k)"
    unfolding street(4) by (simp add: tagFamily_def tag_defs)
  then show ?thesis ..
next
  case (streetBilingual ulMid ulName ulNameDj)
  have "properties f' tagStreet \<noteq> None \<and> (\<forall>k\<in>tagFamily tagPlace. properties f' k = properties f k)"
    unfolding streetBilingual(5) by (simp add: tagFamily_def tag_defs ApplyTagLanguagePostfix_def)
  then show ?thesis ..
next
  case (place ulMid naMid)
  have "properties f' tagPlace \<noteq> None \<and> (\<forall>k\<in>tagFamily tagStreet. properties f' k = properties f k)"
    unfolding place(5) by (simp add: tagFamily_def tag_defs)
  then show ?thesis ..
next
  case (placeBilingual ulMid naMid naNameDj)
  have "properties f' tagPlace \<noteq> None \<and> (\<forall>k\<in>tagFamily tagStreet. properties f' k = properties f k)"
    unfolding placeBilingual(6) by (simp add: tagFamily_def tag_defs ApplyTagLanguagePostfix_def)
  then show ?thesis ..
qed

lemma setNameTags_other:
  assumes "setNameTags lk r lon f = Inr f'" "k \<notin> tagFamily tagStreet" "k \<notin> tagFamily tagPlace"
  shows "properties f' k = properties f k"
  using assms
proof (cases rule: setNameTags_cases)
  case (street ulMid ulName)
  then show ?thesis using assms(2) by (simp add: tagFamily_def)
next
  case (streetBilingual ulMid ulName ulNameDj)
  then show ?thesis using assms(2) ApplyTagLanguagePostfix_cases [of tagStreet lon]
    by (auto simp add: tagFamily_def)
next
  case (place ulMid naMid)
  then show ?thesis using assms(3) by (simp add: tagFamily_def)
next
  case (placeBilingual ulMid naMid naNameDj)
  then show ?thesis using assms(3) ApplyTagLanguagePostfix_cases [of tagPlace lon]
    by (auto simp add: tagFamily_def)
qed

lemma setNameTags_strings:
  assumes "setNameTags lk r lon f = Inr f'" "\<forall>k v. properties f k = Some v \<longrightarrow> (\<exists>s. v = AnyString s)"
  shows "\<forall>k v. properties f' k = Some v \<longrightarrow> (\<exists>s. v = AnyString s)"
  using assms(1)
proof (cases rule: setNameTags_cases)
  case (street ulMid ulName)
  then show ?thesis using assms(2) by simp
next
  case (streetBilingual ulMid ulName ulNameDj)
  then show ?thesis using assms(2) by simp
next
  case (place ulMid naMid)
  then show ?thesis using assms(2) by simp
next
  case (placeBilingual ulMid naMid naNameDj)
  then show ?thesis using assms(2) by simp
qed

subsection \<open>The feature of one record\<close>

lemma buildFeature_Inr:
  assumes "buildFeature lib lk r = Inr f"
  shows "\<exists>labela ptMid dateOd iso hsMid f1.
     Attribute r 4 = Inr labela \<and> Attribute r 8 = Inr ptMid \<and> Attribute r 10 = Inr dateOd
     \<and> isoDate dateOd = Inr iso \<and> Attribute r 1 = Inr hsMid
     \<and> setNameTags lk r (mathRound (bboxMinX r * roundingFactor) / roundingFactor)
          (SetProperty
            (NewPointFeature [mathRound (bboxMinY r * roundingFactor) / roundingFactor,
               mathRound (bboxMinX r * roundingFactor) / roundingFactor])
            tagHousenumber (AnyString (ToLower lib (DecodeWindows1250 lib labela)))) = Inr f1
     \<and> f = f1\<lparr>properties := (properties f1)
           (tagPostCode \<mapsto> AnyString (mapIndex (ptCodeMap lk) ptMid),
            tagCity \<mapsto> AnyString (mapIndex (ptNameMap lk) ptMid),
            tagSourceDate \<mapsto> AnyString iso,
            tagSource \<mapsto> AnyString tagSourceValue,
            tagRef \<mapsto> AnyString hsMid)\<rparr>"
  using assms
  by (auto simp add: buildFeature_def andThen_def Let_def SetProperty_def split: sum.splits)

lemma buildFeature_InrE:
  assumes "buildFeature lib lk r = Inr f"
  obtains labela ptMid dateOd iso hsMid f0 f1 where
    "Attribute r 4 = Inr labela" "Attribute r 8 = Inr ptMid" "Attribute r 10 = Inr dateOd"
    "isoDate dateOd = Inr iso" "Attribute r 1 = Inr hsMid"
    "properties f0 = [tagHousenumber \<mapsto> AnyString (ToLower lib (DecodeWindows1250 lib labela))]"
    "setNameTags lk r (mathRound (bboxMinX r * roundingFactor) / roundingFactor) f0 = Inr f1"
    "coordinates f = [mathRound (bboxMinY r * roundingFactor) / roundingFactor,
                      mathRound (bboxMinX r * roundingFactor) / roundingFactor]"
    "properties f = (properties f1)
           (tagPostCode \<mapsto> AnyString (mapIndex (ptCodeMap lk) ptMid),
            tagCity \<mapsto> AnyString (mapIndex (ptNameMap lk) ptMid),
            tagSourceDate \<mapsto> AnyString iso,
            tagSource \<mapsto> AnyString tagSourceValue,
            tagRef \<mapsto> AnyString hsMid)"
proof -
  from buildFeature_Inr [OF assms] obtain labela ptMid dateOd iso hsMid f1 where
    a: "Attribute r 4 = Inr labela" "Attribute r 8 = Inr ptMid" "Attribute r 10 = Inr dateOd"
      "isoDate dateOd = Inr iso" "Attribute r 1 = Inr hsMid"
    and s: "setNameTags lk r (mathRound (bboxMinX r * roundingFactor) / roundingFactor)
          (SetProperty
            (NewPointFeature [mathRound (bboxMinY r * roundingFactor) / roundingFactor,
               mathRound (bboxMinX r * roundingFactor) / roundingFactor])
            tagHousenumber (AnyString (ToLower lib (DecodeWindows1250 lib labela)))) = Inr f1"
    and f: "f = f1\<lparr>properties := (properties f1)
           (tagPostCode \<mapsto> AnyString (mapIndex (ptCodeMap lk) ptMid),
            tagCity \<mapsto> AnyString (mapIndex (ptNameMap lk) ptMid),
            tagSourceDate \<mapsto> AnyString iso,
            tagSource \<mapsto> AnyString tagSourceValue,
            tagRef \<mapsto> AnyString hsMid)\<rparr>"
    by blast
  let ?f0 = "SetProperty
            (NewPointFeature [mathRound (bboxMinY r * roundingFactor) / roundingFactor,
               mathRound (bboxMinX r * roundingFactor) / roundingFactor])
            tagHousenumber (AnyString (ToLower lib (DecodeWindows1250 lib labela)))"
  have p0: "properties ?f0 = [tagHousenumber \<mapsto> AnyString (ToLower lib (DecodeWindows1250 lib labela))]"
    by (simp add: SetProperty_def NewPointFeature_def)
  have c: "coordinates f = [mathRound (bboxMinY r * roundingFactor) / roundingFactor,
                      mathRound (bboxMinX r * roundingFactor) / roundingFactor]"
    using setNameTags_coordinates [OF s] by (simp add: f SetProperty_def NewPointFeature_def)
  show thesis
    using that [OF a p0 s c] f by simp
qed

lemma buildFeature_valid:
  assumes "Attribute r 12 = Inr st"
  shows "\<exists>dateOd. Attribute r 10 = Inr dateOd \<and>
     (if length dateOd < 8 then buildFeature lib lk r = Inl SliceBoundsOutOfRange
      else \<exists>f. buildFeature lib lk r = Inr f)"
proof -
  have a: "Attribute r 1 = Inr (attrs r ! 1)" "Attribute r 4 = Inr (attrs r ! 4)"
    "Attribute r 8 = Inr (attrs r ! 8)" "Attribute r 10 = Inr (attrs r ! 10)"
    using Attribute_below [OF assms, of 1] Attribute_below [OF assms, of 4]
      Attribute_below [OF assms, of 8] Attribute_below [OF assms, of 10] by simp_all
  obtain f1 where f1: "setNameTags lk r (mathRound (bboxMinX r * roundingFactor) / roundingFactor)
     (SetProperty (NewPointFeature [mathRound (bboxMinY r * roundingFactor) / roundingFactor,
        mathRound (bboxMinX r * roundingFactor) / roundingFactor])
       tagHousenumber (AnyString (ToLower lib (DecodeWindows1250 lib (attrs r ! 4))))) = Inr f1"
    using setNameTags_total [OF assms] by blast
  show ?thesis
    by (simp add: buildFeature_def Let_def a f1 isoDate_eq)
qed

lemma buildFeature_postcode_city:
  assumes "buildFeature lib lk r = Inr f" "Attribute r 8 = Inr ptMid"
  shows "properties f tagPostCode = Some (AnyString (mapIndex (ptCodeMap lk) ptMid))"
    and "properties f tagCity = Some (AnyString (mapIndex (ptNameMap lk) ptMid))"
  using assms(1)
proof (atomize (full), cases rule: buildFeature_InrE)
  case (1 labela ptMid' dateOd iso hsMid f0 f1)
  then show "properties f tagPostCode = Some (AnyString (mapIndex (ptCodeMap lk) ptMid))
      \<and> properties f tagCity = Some (AnyString (mapIndex (ptNameMap lk) ptMid))"
    using assms(2) by (simp add: tag_defs)
qed

lemma buildFeature_housenumber:
  assumes "buildFeature lib lk r = Inr f"
  shows "\<exists>h. properties f tagHousenumber = Some (AnyString h)"
  using assms
proof (cases rule: buildFeature_InrE)
  case (1 labela ptMid dateOd iso hsMid f0 f1)
  have "properties f1 tagHousenumber = properties f0 tagHousenumber"
    using 1(7) by (rule setNameTags_other) (simp_all add: tagFamily_def tag_defs)
  then show ?thesis using 1(6,9) by (simp add: tag_defs)
qed

lemma buildFeature_strings:
  assumes "buildFeature lib lk r = Inr f"
  shows "\<forall>k v. properties f k = Some v \<longrightarrow> (\<exists>s. v = AnyString s)"
  using assms
proof (cases rule: buildFeature_InrE)
  case (1 labela ptMid dateOd iso hsMid f0 f1)
  have "\<forall>k v. properties f0 k = Some v \<longrightarrow> (\<exists>s. v = AnyString s)"
    using 1(6) by (simp split: if_splits)
  with 1(7) have "\<forall>k v. properties f1 k = Some v \<longrightarrow> (\<exists>s. v = AnyString s)"
    by (rule setNameTags_strings)
  then show ?thesis using 1(9) by (simp split: if_splits)
qed

lemma buildFeature_family:
  assumes "buildFeature lib lk r = Inr f"
  shows "(properties f tagStreet \<noteq> None \<and> (\<forall>k\<in>tagFamily tagPlace. properties f k = None))
       \<or> (properties f tagPlace \<noteq> None \<and> (\<forall>k\<in>tagFamily tagStreet. properties f k = None))"
  using assms
proof (cases rule: buildFeature_InrE)
  case (1 labela ptMid dateOd iso hsMid f0 f1)
  have fam: "\<forall>k\<in>tagFamily tagStreet \<union> tagFamily tagPlace. properties f k = properties f1 k \<and> properties f0 k = None"
    unfolding 1(6,9) by (simp add: tagFamily_def tag_defs)
  from setNameTags_street_or_place [OF 1(7)] show ?thesis
    using fam by (auto simp add: tagFamily_def)
qed

subsection \<open>The loop over the records\<close>

lemma readRecords_append:
  "readRecords lib lk (xs @ ys) fc = andThen (readRecords lib lk xs fc) (readRecords lib lk ys)"
proof (induction xs arbitrary: fc)
  case Nil
  show ?case by simp
next
  case (Cons r xs)
  show ?case
  proof (cases "Attribute r 12")
    case (Inl e)
    then show ?thesis by simp
  next
    case (Inr st)
    show ?thesis
    proof (cases "st = ''V''")
      case True
      then show ?thesis using Inr Cons.IH by (cases "buildFeature lib lk r") simp_all
    next
      case False
      then show ?thesis using Inr Cons.IH by simp
    qed
  qed
qed

lemma readRecords_member:
  assumes "readRecords lib lk rs fc = Inr out" "f \<in> set out"
  shows "f \<in> set fc \<or> (\<exists>r\<in>set rs. Attribute r 12 = Inr ''V'' \<and> buildFeature lib lk r = Inr f)"
  using assms
proof (induction rs arbitrary: fc)
  case Nil
  then show ?case by simp
next
  case (Cons r rs)
  from Cons.prems(1) obtain st where st: "Attribute r 12 = Inr st"
    by (cases "Attribute r 12") simp_all
  show ?case
  proof (cases "st = ''V''")
    case True
    with Cons.prems(1) st obtain g where g: "buildFeature lib lk r = Inr g"
      by (cases "buildFeature lib lk r") simp_all
    with Cons.prems(1) st True have "readRecords lib lk rs (fc @ [g]) = Inr out" by simp
    from Cons.IH [OF this Cons.prems(2)] show ?thesis using g st True by auto
  next
    case False
    with Cons.prems(1) st have "readRecords lib lk rs fc = Inr out" by simp
    from Cons.IH [OF this Cons.prems(2)] show ?thesis by auto
  qed
qed

lemma ReadShapefile_member:
  assumes "ReadShapefile lib lk shapeFile = Inr featureCollection" "f \<in> set featureCollection"
  shows "\<exists>shapeReader. shapeFile = Some shapeReader \<and>
     (\<exists>r\<in>set (rows shapeReader). Attribute r 12 = Inr ''V'' \<and> buildFeature lib lk r = Inr f)"
proof (cases shapeFile)
  case None
  then show ?thesis using assms(1) by (simp add: ReadShapefile_def)
next
  case (Some shapeReader)
  then have "readRecords lib lk (rows shapeReader) [] = Inr featureCollection"
    using assms(1) by (simp add: ReadShapefile_def)
  from readRecords_member [OF this assms(2)] show ?thesis using Some by simp
qed

subsection \<open>The comparison function\<close>

lemma compareTag_total:
  assumes "\<forall>k v. properties fi k = Some v \<longrightarrow> (\<exists>s. v = AnyString s)"
    and "\<forall>k v. properties fj k = Some v \<longrightarrow> (\<exists>s. v = AnyString s)"
  shows "\<exists>c. compareTag tag fi fj = Inr c"
proof -
  have "\<And>f. \<forall>k v. properties f k = Some v \<longrightarrow> (\<exists>s. v = AnyString s) \<Longrightarrow>
     propertyAt f tag = AnyNil \<or> (\<exists>s. propertyAt f tag = AnyString s)"
    by (auto simp add: propertyAt_def split: option.splits)
  from this [OF assms(1)] this [OF assms(2)] show ?thesis
    by (auto simp add: compareTag_def assertString_def)
qed

lemma sortLess_total:
  assumes "\<forall>k v. properties fi k = Some v \<longrightarrow> (\<exists>s. v = AnyString s)"
    and "\<forall>k v. properties fj k = Some v \<longrightarrow> (\<exists>s. v = AnyString s)"
    and "properties fi tagPostCode = Some (AnyString pl)" "properties fj tagPostCode = Some (AnyString pr)"
    and "properties fi tagHousenumber = Some (AnyString hl)" "properties fj tagHousenumber = Some (AnyString hr)"
  shows "\<exists>b. sortLess lib fi fj = Inr b"
proof -
  obtain s where s: "compareTag tagStreet fi fj = Inr s"
    using compareTag_total [OF assms(1,2)] by blast
  obtain p where p: "compareTag tagPlace fi fj = Inr p"
    using compareTag_total [OF assms(1,2)] by blast
  show ?thesis
    using assms(3-6) s p
    by (cases s; cases p) (auto simp add: sortLess_def propertyAt_def assertString_def)
qed

subsection \<open>The loader\<close>

lemma readRows_entries:
  assumes "\<forall>r\<in>set rs. k < length (attrs r) \<and> v < length (attrs r)"
  shows "readRows lib (int k) (int v) rs m = Inr (m ++ map_of (rev (tableEntries lib k v rs)))"
  using assms
proof (induction rs arbitrary: m)
  case Nil
  then show ?case by (simp add: tableEntries_def)
next
  case (Cons r rs)
  let ?key = "entryKey lib k r"
  let ?val = "entryValue lib v r"
  have a: "Attribute r (int k) = Inr (attrs r ! k)" "Attribute r (int v) = Inr (attrs r ! v)"
    using Cons.prems by (simp_all add: Attribute_nat)
  have ih: "\<And>m. readRows lib (int k) (int v) rs m = Inr (m ++ map_of (rev (tableEntries lib k v rs)))"
    using Cons.IH Cons.prems by simp
  show ?case
  proof (cases "?val = []")
    case True
    then show ?thesis by (simp add: a andThen_def ih tableEntries_def entryValue_def)
  next
    case False
    have "tableEntries lib k v (r # rs) = (?key, ?val) # tableEntries lib k v rs"
      using False by (simp add: tableEntries_def)
    then have "m ++ map_of (rev (tableEntries lib k v (r # rs))) =
        m(?key \<mapsto> ?val) ++ map_of (rev (tableEntries lib k v rs))"
      by (simp add: map_add_upd_left fun_eq_iff map_add_def split: option.splits)
    then show ?thesis using False by (simp add: a andThen_def ih entryKey_def entryValue_def)
  qed
qed

lemma tableEntries_append:
  "tableEntries lib k v (xs @ ys) = tableEntries lib k v xs @ tableEntries lib k v ys"
  by (simp add: tableEntries_def)

lemma fst_tableEntries:
  "fst ` set (tableEntries lib k v rs) = {entryKey lib k r | r. r \<in> set rs \<and> entryValue lib v r \<noteq> []}"
  by (auto simp add: tableEntries_def image_iff)

lemma table_last_write:
  assumes "rs = before @ r # after" "entryValue lib v r \<noteq> []"
    and "\<forall>r'\<in>set after. entryKey lib k r' = entryKey lib k r \<longrightarrow> entryValue lib v r' = []"
  shows "map_of (rev (tableEntries lib k v rs)) (entryKey lib k r) = Some (entryValue lib v r)"
proof -
  have none: "map_of (rev (tableEntries lib k v after)) (entryKey lib k r) = None"
  proof -
    have "entryKey lib k r \<notin> fst ` set (tableEntries lib k v after)"
      using assms(3) by (auto simp add: fst_tableEntries)
    then show ?thesis by (simp add: map_of_eq_None_iff)
  qed
  have "tableEntries lib k v rs =
      tableEntries lib k v before @ (entryKey lib k r, entryValue lib v r) # tableEntries lib k v after"
    using assms(2) unfolding assms(1) tableEntries_append
    by (simp add: tableEntries_def)
  then show ?thesis using none by (simp add: map_add_def)
qed

subsection \<open>Evaluation on the sample data\<close>

lemma Attribute_hsRecord:
  "Attribute (hsRecord hsMid labela ulMid naMid ptMid dOd status x y) 12 = Inr status"
  "Attribute (hsRecord hsMid labela ulMid naMid ptMid dOd status x y) 10 = Inr dOd"
  "Attribute (hsRecord hsMid labela ulMid naMid ptMid dOd status x y) 8 = Inr ptMid"
  "Attribute (hsRecord hsMid labela ulMid naMid ptMid dOd status x y) 6 = Inr naMid"
  "Attribute (hsRecord hsMid labela ulMid naMid ptMid dOd status x y) 5 = Inr ulMid"
  "Attribute (hsRecord hsMid labela ulMid naMid ptMid dOd status x y) 4 = Inr labela"
  "Attribute (hsRecord hsMid labela ulMid naMid ptMid dOd status x y) 1 = Inr hsMid"
  by (simp_all add: Attribute_def hsRecord_def)

lemma bbox_hsRecord:
  "bboxMinX (hsRecord hsMid labela ulMid naMid ptMid dOd status x y) = x"
  "bboxMinY (hsRecord hsMid labela ulMid naMid ptMid dOd status x y) = y"
  by (simp_all add: hsRecord_def)

lemma rows_hsFile [simp]: "rows (hsFile rs) = rs"
  by (simp add: hsFile_def)

lemmas build_eval = buildFeature_def setNameTags_def isoDate_def sliceString_def
  SetProperty_def NewPointFeature_def mapIndex_def mapHas_def ApplyTagLanguagePostfix_def
  ItalianHungarianSplitLongitude_def mathRound_def roundingFactor_def ToLower_def asciiLower_def
  DecodeWindows1250_def DecodeWindows1250bytes_def RuneSelf_def Let_def Attribute_hsRecord
  bbox_hsRecord char_of_eq_iff ReadShapefile_def sampleLookups_def tag_defs

lemmas table_eval = tableEntries_def entryKey_def entryValue_def stringsTrim_def trimLeftByte_def trimRightByte_def NUL_def
  DecodeWindows1250_def DecodeWindows1250bytes_def RuneSelf_def

section \<open>The claims\<close>

text \<open>
  Claim C1, as the code has it. For a record that is turned into a feature, a postal-area
  identifier that is not a key of \<open>ptCodeMap\<close> gives the feature the property
  \<open>addr:postcode\<close> with the empty string as its value, and one that is not a key of
  \<open>ptNameMap\<close> gives it \<open>addr:city\<close> with the empty string: line 259 and line 261 set
  the two properties without looking whether the key is there, and the index expression of
  a Go map yields the zero value.
\<close>

theorem missing_postal_area_gives_empty_tags:
  assumes "buildFeature lib lk r = Inr f" and "Attribute r 8 = Inr ptMid"
  shows "(ptCodeMap lk ptMid = None \<longrightarrow> properties f tagPostCode = Some (AnyString ''''))
       \<and> (ptNameMap lk ptMid = None \<longrightarrow> properties f tagCity = Some (AnyString ''''))"
  using buildFeature_postcode_city [OF assms] by (simp add: mapIndex_def)

theorem missing_postal_area_gives_empty_tags_witness:
  "Attribute (hsRecord ''77'' ''12a'' ''10'' ''20'' ''999'' ''20200131'' ''V'' 14.6 46.05) 8 = Inr ''999''
   \<and> ptCodeMap sampleLookups ''999'' = None \<and> ptNameMap sampleLookups ''999'' = None
   \<and> (case buildFeature asciiLib sampleLookups
              (hsRecord ''77'' ''12a'' ''10'' ''20'' ''999'' ''20200131'' ''V'' 14.6 46.05) of
         Inr f \<Rightarrow> properties f tagPostCode = Some (AnyString [])
                  \<and> properties f tagCity = Some (AnyString [])
       | Inl e \<Rightarrow> False)"
proof -
  let ?r = "hsRecord ''77'' ''12a'' ''10'' ''20'' ''999'' ''20200131'' ''V'' 14.6 46.05"
  have "\<exists>f. buildFeature asciiLib sampleLookups ?r = Inr f"
    by (simp add: build_eval)
  then obtain f where b: "buildFeature asciiLib sampleLookups ?r = Inr f" ..
  have pt: "Attribute ?r 8 = Inr ''999''"
    by (simp add: Attribute_hsRecord)
  have none: "ptCodeMap sampleLookups ''999'' = None" "ptNameMap sampleLookups ''999'' = None"
    by (simp_all add: sampleLookups_def)
  from missing_postal_area_gives_empty_tags [OF b pt] none pt show ?thesis
    unfolding b by simp
qed

text \<open>Claim C1 as stated fails: the feature of a record with the unknown postal area
  \<open>999\<close> has both keys, each with the empty string.\<close>

theorem missing_postal_area_counterexample:
  "case ReadShapefile asciiLib sampleLookups
          (Some (hsFile [hsRecord ''77'' ''12a'' ''10'' ''20'' ''999'' ''20200131'' ''V'' 14.6 46.05])) of
     Inr [f] \<Rightarrow> tagPostCode \<in> dom (properties f) \<and> properties f tagPostCode = Some (AnyString [])
               \<and> tagCity \<in> dom (properties f) \<and> properties f tagCity = Some (AnyString [])
   | _ \<Rightarrow> False"
  by (simp add: build_eval)

text \<open>
  Claim C2, as the code has it. For a record that passed the validity check, the one step
  after the geometry that can stop the record and the run is the slicing of the validity
  date: it panics exactly when the column holds fewer than 8 bytes. With 8 bytes or more,
  whatever they are, the record becomes a feature, and its date tag is the bytes 0 to 3,
  a hyphen, the bytes 4 and 5, a hyphen and the bytes 6 and 7.
\<close>

theorem date_is_the_only_failing_step:
  assumes "Attribute r 12 = Inr ''V''"
  shows "\<exists>dateOd. Attribute r 10 = Inr dateOd \<and>
     (if length dateOd < 8
      then buildFeature lib lk r = Inl SliceBoundsOutOfRange
      else \<exists>f. buildFeature lib lk r = Inr f
             \<and> properties f tagSourceDate =
                 Some (AnyString (take 4 dateOd @ ''-'' @ take 2 (drop 4 dateOd) @ ''-'' @ take 2 (drop 6 dateOd))))"
proof -
  from buildFeature_valid [OF assms, of lib lk] obtain dateOd where
    d: "Attribute r 10 = Inr dateOd" and
    b: "if length dateOd < 8 then buildFeature lib lk r = Inl SliceBoundsOutOfRange
        else \<exists>f. buildFeature lib lk r = Inr f"
    by blast
  show ?thesis
  proof (cases "length dateOd < 8")
    case True
    then show ?thesis using d b by simp
  next
    case False
    with b obtain f where f: "buildFeature lib lk r = Inr f" by auto
    from f have "properties f tagSourceDate =
        Some (AnyString (take 4 dateOd @ ''-'' @ take 2 (drop 4 dateOd) @ ''-'' @ take 2 (drop 6 dateOd)))"
    proof (cases rule: buildFeature_InrE)
      case (1 labela ptMid dateOd' iso hsMid f0 f1)
      then show ?thesis using d False by (simp add: isoDate_eq tag_defs)
    qed
    then show ?thesis using d False f by simp
  qed
qed

theorem date_is_the_only_failing_step_witness:
  "Attribute (hsRecord ''77'' ''12a'' ''10'' ''20'' ''1'' ''20200131'' ''V'' 14.6 46.05) 12 = Inr ''V''
   \<and> (case buildFeature asciiLib sampleLookups
              (hsRecord ''77'' ''12a'' ''10'' ''20'' ''1'' ''20200131'' ''V'' 14.6 46.05) of
         Inr f \<Rightarrow> properties f tagSourceDate = Some (AnyString ''2020-01-31'')
       | Inl e \<Rightarrow> False)
   \<and> (case buildFeature asciiLib sampleLookups
              (hsRecord ''77'' ''12a'' ''10'' ''20'' ''1'' ''31. 1. 2020'' ''V'' 14.6 46.05) of
         Inr f \<Rightarrow> properties f tagSourceDate = Some (AnyString ''31. -1.- 2'')
       | Inl e \<Rightarrow> False)
   \<and> buildFeature asciiLib sampleLookups
        (hsRecord ''77'' ''12a'' ''10'' ''20'' ''1'' ''2020'' ''V'' 14.6 46.05) = Inl SliceBoundsOutOfRange"
  using
    date_is_the_only_failing_step [where lib = asciiLib and lk = sampleLookups
      and r = "hsRecord ''77'' ''12a'' ''10'' ''20'' ''1'' ''20200131'' ''V'' 14.6 46.05"]
    date_is_the_only_failing_step [where lib = asciiLib and lk = sampleLookups
      and r = "hsRecord ''77'' ''12a'' ''10'' ''20'' ''1'' ''31. 1. 2020'' ''V'' 14.6 46.05"]
    date_is_the_only_failing_step [where lib = asciiLib and lk = sampleLookups
      and r = "hsRecord ''77'' ''12a'' ''10'' ''20'' ''1'' ''2020'' ''V'' 14.6 46.05"]
  by (auto simp add: Attribute_hsRecord)

text \<open>Claim C2 as stated fails: a valid record whose validity date is empty (or has four
  bytes) stops the run with a panic, and no feature of the file is returned.\<close>

theorem short_date_counterexample:
  "ReadShapefile asciiLib sampleLookups
     (Some (hsFile [hsRecord ''76'' ''1'' ''10'' ''20'' ''1'' ''20200131'' ''V'' 14.6 46.05,
                    hsRecord ''77'' ''12a'' ''10'' ''20'' ''1'' [] ''V'' 14.6 46.05])) =
     Inl SliceBoundsOutOfRange
   \<and> ReadShapefile asciiLib sampleLookups
     (Some (hsFile [hsRecord ''77'' ''12a'' ''10'' ''20'' ''1'' ''2020'' ''V'' 14.6 46.05])) =
     Inl SliceBoundsOutOfRange"
  by (simp add: build_eval)

text \<open>
  Claim C3, as the code has it. \<open>NormalizeHouseNumber\<close> only pads: when the house number is
  empty or its last rune is a digit, the key is the house number padded on the left with
  zeros to three runes and followed by the placeholder \<open>_\<close>, so it has
  \<open>max 4 (runes + 1)\<close> runes and its last rune is the placeholder; otherwise the key is the
  house number padded with zeros to four runes, so it has \<open>max 4 runes\<close> runes and ends in
  the last rune of the house number. The key has four runes exactly when the house number
  has at most three runes (at most four with a suffix).
\<close>

theorem NormalizeHouseNumber_shape:
  "(case DecodeLastRuneInString h of (lastRune, n) \<Rightarrow>
      if n = 0 \<or> IsDigit lib lastRune
      then NormalizeHouseNumber lib h = replicate (3 - RuneCountInString h) (CHR ''0'') @ h @ ''_''
         \<and> RuneCountInString (NormalizeHouseNumber lib h) = max 4 (RuneCountInString h + 1)
         \<and> DecodeLastRuneInString (NormalizeHouseNumber lib h) = (of_char (CHR ''_''), 1)
      else NormalizeHouseNumber lib h = replicate (4 - RuneCountInString h) (CHR ''0'') @ h
         \<and> RuneCountInString (NormalizeHouseNumber lib h) = max 4 (RuneCountInString h)
         \<and> DecodeLastRuneInString (NormalizeHouseNumber lib h) = DecodeLastRuneInString h)"
proof (cases "DecodeLastRuneInString h")
  case (Pair lastRune n)
  show ?thesis
  proof (cases "n = 0 \<or> IsDigit lib lastRune")
    case True
    have eq: "NormalizeHouseNumber lib h = (replicate (3 - RuneCountInString h) (CHR ''0'') @ h) @ ''_''"
      using Pair True by (simp add: NormalizeHouseNumber_def fmtPadZero_def)
    have cnt: "RuneCountInString (NormalizeHouseNumber lib h) = max 4 (RuneCountInString h + 1)"
      unfolding eq by (subst RuneCount_snoc_ascii) (simp_all add: RuneCount_replicate_zero)
    have lst: "DecodeLastRuneInString (NormalizeHouseNumber lib h) = (of_char (CHR ''_''), 1)"
      unfolding eq by (rule DecodeLast_snoc_ascii) simp
    show ?thesis using Pair True eq cnt lst by simp
  next
    case False
    then have ne: "h \<noteq> []" using Pair by (auto simp add: DecodeLastRuneInString_def)
    have eq: "NormalizeHouseNumber lib h = replicate (4 - RuneCountInString h) (CHR ''0'') @ h"
      using Pair False by (simp add: NormalizeHouseNumber_def fmtPadZero_def)
    have cnt: "RuneCountInString (NormalizeHouseNumber lib h) = max 4 (RuneCountInString h)"
      unfolding eq by (simp add: RuneCount_replicate_zero)
    have lst: "DecodeLastRuneInString (NormalizeHouseNumber lib h) = DecodeLastRuneInString h"
      unfolding eq using ne by (rule DecodeLast_replicate_zero)
    show ?thesis using Pair False eq cnt lst by simp
  qed
qed

text \<open>The theorem at \<open>12\<close> (no suffix) and at \<open>12a\<close> (a suffix).\<close>

theorem NormalizeHouseNumber_shape_witness:
  "NormalizeHouseNumber asciiLib ''12'' = ''012_''
   \<and> RuneCountInString (NormalizeHouseNumber asciiLib ''12'') = 4
   \<and> NormalizeHouseNumber asciiLib ''12a'' = ''012a''
   \<and> RuneCountInString (NormalizeHouseNumber asciiLib ''12a'') = 4
   \<and> DecodeLastRuneInString (NormalizeHouseNumber asciiLib ''12a'') = (of_char (CHR ''a''), 1)"
  using NormalizeHouseNumber_shape [where h = "''12''" and lib = asciiLib]
    NormalizeHouseNumber_shape [where h = "''12a''" and lib = asciiLib]
  by (simp add: IsDigit_def utf8_eval eval_nat_numeral)

text \<open>Claim C3 as stated fails: a house number of four digits gives a key of five
  characters.\<close>

theorem NormalizeHouseNumber_length_counterexample:
  "NormalizeHouseNumber asciiLib ''1234'' = ''1234_''
   \<and> length (NormalizeHouseNumber asciiLib ''1234'') = 5
   \<and> RuneCountInString (NormalizeHouseNumber asciiLib ''1234'') = 5"
  by (simp add: normalize_eval)

text \<open>
  Claim C4. Every feature of the collection that \<open>ReadShapefile\<close> returns has the property
  \<open>addr:street\<close> exactly when it does not have the property \<open>addr:place\<close>, and it has no
  key of the street family or no key of the place family: the two families never meet on
  one feature.
\<close>

theorem one_name_family_per_feature:
  assumes "ReadShapefile lib lk shapeFile = Inr featureCollection"
  shows "\<forall>f\<in>set featureCollection.
     (properties f tagStreet \<noteq> None \<longleftrightarrow> properties f tagPlace = None)
     \<and> ((\<forall>k\<in>tagFamily tagPlace. properties f k = None) \<or> (\<forall>k\<in>tagFamily tagStreet. properties f k = None))"
proof
  fix f assume "f \<in> set featureCollection"
  from ReadShapefile_member [OF assms this] obtain r where "buildFeature lib lk r = Inr f"
    by blast
  from buildFeature_family [OF this]
  show "(properties f tagStreet \<noteq> None \<longleftrightarrow> properties f tagPlace = None)
     \<and> ((\<forall>k\<in>tagFamily tagPlace. properties f k = None) \<or> (\<forall>k\<in>tagFamily tagStreet. properties f k = None))"
    by (auto simp add: tagFamily_def)
qed

theorem one_name_family_per_feature_witness:
  "case ReadShapefile asciiLib sampleLookups
          (Some (hsFile [hsRecord ''77'' ''12a'' ''11'' ''20'' ''1'' ''20200131'' ''V'' 14.6 46.05,
                         hsRecord ''78'' ''3'' [] ''21'' ''1'' ''20200131'' ''V'' 14.4 46.05])) of
     Inr [f, g] \<Rightarrow>
       properties f tagStreet = Some (AnyString ''Glavna ulica / Fo utca'')
       \<and> properties f tagPlace = None
       \<and> properties g tagStreet = None
       \<and> properties g tagPlace = Some (AnyString '' / Falu'')
       \<and> properties g (tagPlace @ tagLangPostfixItalian) = Some (AnyString ''Falu'')
   | _ \<Rightarrow> False"
proof -
  let ?file = "Some (hsFile [hsRecord ''77'' ''12a'' ''11'' ''20'' ''1'' ''20200131'' ''V'' 14.6 46.05,
                             hsRecord ''78'' ''3'' [] ''21'' ''1'' ''20200131'' ''V'' 14.4 46.05])"
  have "\<exists>f g. ReadShapefile asciiLib sampleLookups ?file = Inr [f, g]
      \<and> properties f tagStreet = Some (AnyString ''Glavna ulica / Fo utca'')
      \<and> properties g tagPlace = Some (AnyString '' / Falu'')
      \<and> properties g (tagPlace @ tagLangPostfixItalian) = Some (AnyString ''Falu'')"
    by (simp add: build_eval)
  then obtain f g where run: "ReadShapefile asciiLib sampleLookups ?file = Inr [f, g]"
    and tags: "properties f tagStreet = Some (AnyString ''Glavna ulica / Fo utca'')"
      "properties g tagPlace = Some (AnyString '' / Falu'')"
      "properties g (tagPlace @ tagLangPostfixItalian) = Some (AnyString ''Falu'')"
    by blast
  from one_name_family_per_feature [OF run] tags show ?thesis
    unfolding run by simp
qed

text \<open>
  Claim C5. A record whose status column is not \<open>V\<close> adds nothing to the collection and
  stops nothing, whatever its other columns hold: the run over a file with the record is
  the run over the file without it.
\<close>

theorem invalid_record_skipped:
  assumes "Attribute r 12 = Inr status" and "status \<noteq> ''V''"
  shows "readRecords lib lk [r] featureCollection = Inr featureCollection
    \<and> ReadShapefile lib lk (Some (shapeReader\<lparr>rows := before @ r # after\<rparr>)) =
       ReadShapefile lib lk (Some (shapeReader\<lparr>rows := before @ after\<rparr>))"
proof -
  have one: "\<And>fc. readRecords lib lk [r] fc = Inr fc"
    using assms by simp
  have skip: "readRecords lib lk (r # after) = readRecords lib lk after"
    using assms by (simp add: fun_eq_iff)
  have "readRecords lib lk (before @ r # after) [] = readRecords lib lk (before @ after) []"
    by (simp only: readRecords_append skip)
  then show ?thesis using one by (simp add: ReadShapefile_def)
qed

theorem invalid_record_skipped_witness:
  "Attribute (hsRecord ''78'' ''?'' [] [] [] [] ''N'' 0 0) 12 = Inr ''N'' \<and> ''N'' \<noteq> ''V''
   \<and> ReadShapefile asciiLib sampleLookups
        (Some (hsFile [hsRecord ''77'' ''12a'' ''10'' ''20'' ''1'' ''20200131'' ''V'' 14.6 46.05,
                       hsRecord ''78'' ''?'' [] [] [] [] ''N'' 0 0])) =
      ReadShapefile asciiLib sampleLookups
        (Some (hsFile [hsRecord ''77'' ''12a'' ''10'' ''20'' ''1'' ''20200131'' ''V'' 14.6 46.05]))
   \<and> (case ReadShapefile asciiLib sampleLookups
        (Some (hsFile [hsRecord ''77'' ''12a'' ''10'' ''20'' ''1'' ''20200131'' ''V'' 14.6 46.05,
                       hsRecord ''78'' ''?'' [] [] [] [] ''N'' 0 0])) of
        Inr featureCollection \<Rightarrow> length featureCollection = 1
      | Inl e \<Rightarrow> False)"
proof -
  let ?v = "hsRecord ''77'' ''12a'' ''10'' ''20'' ''1'' ''20200131'' ''V'' 14.6 46.05"
  let ?n = "hsRecord ''78'' ''?'' [] [] [] [] ''N'' 0 0"
  have st: "Attribute ?n 12 = Inr ''N''" "''N'' \<noteq> ''V''"
    by (simp_all add: Attribute_hsRecord)
  have same: "ReadShapefile asciiLib sampleLookups (Some (hsFile [?v, ?n])) =
      ReadShapefile asciiLib sampleLookups (Some (hsFile [?v]))"
    using invalid_record_skipped [OF st, where lib = asciiLib and lk = sampleLookups
        and shapeReader = "hsFile []" and before = "[?v]" and after = "[]"]
    by (simp add: hsFile_def)
  have "\<exists>f. ReadShapefile asciiLib sampleLookups (Some (hsFile [?v])) = Inr [f]"
    by (simp add: build_eval)
  then show ?thesis using st unfolding same by auto
qed

text \<open>
  Claim C6. Where a feature gets a bilingual name, the key of the second variant is the
  tag with the Hungarian postfix when the longitude of the feature (its second
  coordinate) is greater than 14.5, and with the Italian postfix otherwise, 14.5 itself
  included; the key with the other postfix is not set. This holds for the street tag and
  for the place tag.
\<close>

theorem bilingual_suffix_by_longitude:
  assumes "buildFeature lib lk r = Inr f"
    and "Attribute r 5 = Inr ulMid" and "Attribute r 6 = Inr naMid"
  shows "(ulNameMap lk ulMid = Some ulName \<and> ulNameDjMap lk ulMid = Some ulNameDj \<and> ulNameDj \<noteq> ulName \<longrightarrow>
           (if coordinates f ! 1 > 14.5
            then properties f (tagStreet @ tagLangPostfixHungarian) = Some (AnyString ulNameDj)
               \<and> properties f (tagStreet @ tagLangPostfixItalian) = None
            else properties f (tagStreet @ tagLangPostfixItalian) = Some (AnyString ulNameDj)
               \<and> properties f (tagStreet @ tagLangPostfixHungarian) = None))
       \<and> (ulNameMap lk ulMid = None \<and> naNameDjMap lk naMid = Some naNameDj
            \<and> naNameDj \<noteq> mapIndex (naNameMap lk) naMid \<longrightarrow>
           (if coordinates f ! 1 > 14.5
            then properties f (tagPlace @ tagLangPostfixHungarian) = Some (AnyString naNameDj)
               \<and> properties f (tagPlace @ tagLangPostfixItalian) = None
            else properties f (tagPlace @ tagLangPostfixItalian) = Some (AnyString naNameDj)
               \<and> properties f (tagPlace @ tagLangPostfixHungarian) = None))"
  using assms(1)
proof (cases rule: buildFeature_InrE)
  case (1 labela ptMid dateOd iso hsMid f0 f1)
  have lon: "coordinates f ! 1 = mathRound (bboxMinX r * roundingFactor) / roundingFactor"
    using 1(8) by simp
  from 1(7) show ?thesis
  proof (cases rule: setNameTags_cases)
    case (street ulMid' ulName')
    then show ?thesis using assms(2) by auto
  next
    case (streetBilingual ulMid' ulName' ulNameDj')
    then show ?thesis using assms(2) unfolding 1(9) 1(6) lon
      by (simp add: ApplyTagLanguagePostfix_def ItalianHungarianSplitLongitude_def tag_defs)
  next
    case (place ulMid' naMid')
    then show ?thesis using assms(2,3) by auto
  next
    case (placeBilingual ulMid' naMid' naNameDj')
    then show ?thesis using assms(2,3) unfolding 1(9) 1(6) lon
      by (simp add: ApplyTagLanguagePostfix_def ItalianHungarianSplitLongitude_def tag_defs)
  qed
qed

text \<open>Two records that differ in the longitude only, 14.6 and 14.4, and a third at 14.5.\<close>

theorem bilingual_suffix_by_longitude_witness:
  "(case buildFeature asciiLib sampleLookups
          (hsRecord ''77'' ''12a'' ''11'' ''20'' ''1'' ''20200131'' ''V'' 14.6 46.05) of
      Inr f \<Rightarrow> coordinates f ! 1 = 14.6
        \<and> properties f ''addr:street:hu'' = Some (AnyString ''Fo utca'')
        \<and> properties f ''addr:street:it'' = None
    | Inl e \<Rightarrow> False)
   \<and> (case buildFeature asciiLib sampleLookups
          (hsRecord ''77'' ''12a'' ''11'' ''20'' ''1'' ''20200131'' ''V'' 14.4 46.05) of
      Inr f \<Rightarrow> coordinates f ! 1 = 14.4
        \<and> properties f ''addr:street:it'' = Some (AnyString ''Fo utca'')
        \<and> properties f ''addr:street:hu'' = None
    | Inl e \<Rightarrow> False)
   \<and> (case buildFeature asciiLib sampleLookups
          (hsRecord ''77'' ''12a'' [] ''21'' ''1'' ''20200131'' ''V'' 14.5 46.05) of
      Inr f \<Rightarrow> coordinates f ! 1 = 14.5
        \<and> properties f ''addr:place:it'' = Some (AnyString ''Falu'')
        \<and> properties f ''addr:place:hu'' = None
    | Inl e \<Rightarrow> False)"
proof -
  let ?east = "hsRecord ''77'' ''12a'' ''11'' ''20'' ''1'' ''20200131'' ''V'' 14.6 46.05"
  let ?west = "hsRecord ''77'' ''12a'' ''11'' ''20'' ''1'' ''20200131'' ''V'' 14.4 46.05"
  let ?mid = "hsRecord ''77'' ''12a'' [] ''21'' ''1'' ''20200131'' ''V'' 14.5 46.05"
  have "\<exists>f. buildFeature asciiLib sampleLookups ?east = Inr f \<and> coordinates f ! 1 = 14.6"
    by (simp add: build_eval)
  then obtain fe where e: "buildFeature asciiLib sampleLookups ?east = Inr fe"
    and le: "coordinates fe ! 1 = 14.6" by blast
  have "\<exists>f. buildFeature asciiLib sampleLookups ?west = Inr f \<and> coordinates f ! 1 = 14.4"
    by (simp add: build_eval)
  then obtain fw where w: "buildFeature asciiLib sampleLookups ?west = Inr fw"
    and lw: "coordinates fw ! 1 = 14.4" by blast
  have "\<exists>f. buildFeature asciiLib sampleLookups ?mid = Inr f \<and> coordinates f ! 1 = 14.5"
    by (simp add: build_eval)
  then obtain fm where m: "buildFeature asciiLib sampleLookups ?mid = Inr fm"
    and lm: "coordinates fm ! 1 = 14.5" by blast
  have maps: "ulNameMap sampleLookups ''11'' = Some ''Glavna ulica''"
    "ulNameDjMap sampleLookups ''11'' = Some ''Fo utca''"
    "ulNameMap sampleLookups [] = None" "naNameDjMap sampleLookups ''21'' = Some ''Falu''"
    "mapIndex (naNameMap sampleLookups) ''21'' = []"
    by (simp_all add: sampleLookups_def mapIndex_def)
  have east: "properties fe ''addr:street:hu'' = Some (AnyString ''Fo utca'')
      \<and> properties fe ''addr:street:it'' = None"
    using bilingual_suffix_by_longitude [OF e, of "''11''" "''20''" "''Glavna ulica''" "''Fo utca''"]
      maps le
    by (simp add: Attribute_hsRecord tag_defs)
  have west: "properties fw ''addr:street:it'' = Some (AnyString ''Fo utca'')
      \<and> properties fw ''addr:street:hu'' = None"
    using bilingual_suffix_by_longitude [OF w, of "''11''" "''20''" "''Glavna ulica''" "''Fo utca''"]
      maps lw
    by (simp add: Attribute_hsRecord tag_defs)
  have mid: "properties fm ''addr:place:it'' = Some (AnyString ''Falu'')
      \<and> properties fm ''addr:place:hu'' = None"
    using bilingual_suffix_by_longitude [OF m, of "[]" "''21''" _ _ "''Falu''"]
      maps lm
    by (simp add: Attribute_hsRecord tag_defs)
  show ?thesis
    unfolding e w m using east west mid le lw lm by simp
qed

text \<open>
  Claim C8. When the file has the two columns (the search of the header ends with the
  indices \<open>k\<close> and \<open>v\<close>, and every record has both), \<open>readShapefileToMap\<close> returns a
  table. Its keys are the decoded keys of exactly the records whose decoded value, with
  the NUL bytes trimmed off, is not empty; and the last record with a non-empty value
  among the records of one key gives the key its value. The table is the map of the pairs
  of \<open>tableEntries\<close>, read from the last pair to the first.
\<close>

theorem readShapefileToMap_table:
  assumes "findColumns (fieldNames shapeReader) 0 keyColumnName valueColumnName (- 1, - 1) = (int k, int v)"
    and "\<forall>r\<in>set (rows shapeReader). k < length (attrs r) \<and> v < length (attrs r)"
  shows "\<exists>table. readShapefileToMap lib (Some shapeReader) keyColumnName valueColumnName = Inr table
     \<and> table = map_of (rev (tableEntries lib k v (rows shapeReader)))
     \<and> dom table =
         {entryKey lib k r | r. r \<in> set (rows shapeReader) \<and> entryValue lib v r \<noteq> []}
     \<and> (\<forall>before r after.
           rows shapeReader = before @ r # after \<and> entryValue lib v r \<noteq> []
           \<and> (\<forall>r'\<in>set after. entryKey lib k r' = entryKey lib k r \<longrightarrow> entryValue lib v r' = [])
           \<longrightarrow> table (entryKey lib k r) = Some (entryValue lib v r))"
proof -
  let ?table = "map_of (rev (tableEntries lib k v (rows shapeReader)))"
  have run: "readShapefileToMap lib (Some shapeReader) keyColumnName valueColumnName = Inr ?table"
    using readRows_entries [OF assms(2), of lib Map.empty]
    by (simp add: readShapefileToMap_def assms(1))
  have d: "dom ?table = {entryKey lib k r | r. r \<in> set (rows shapeReader) \<and> entryValue lib v r \<noteq> []}"
    by (simp add: dom_map_of_conv_image_fst fst_tableEntries)
  have l: "\<forall>before r after.
           rows shapeReader = before @ r # after \<and> entryValue lib v r \<noteq> []
           \<and> (\<forall>r'\<in>set after. entryKey lib k r' = entryKey lib k r \<longrightarrow> entryValue lib v r' = [])
           \<longrightarrow> ?table (entryKey lib k r) = Some (entryValue lib v r)"
    using table_last_write by blast
  show ?thesis using run d l by blast
qed

text \<open>The file of the claim (key \<open>100\<close> with \<open>Main St\<close>, key \<open>101\<close> with an empty value), a
  file where the key \<open>100\<close> comes twice, and a column of values that are empty or NUL
  bytes only.\<close>

theorem readShapefileToMap_table_witness:
  "(case readShapefileToMap asciiLib
       (Some \<lparr>fieldNames = [''UL_MID'', ''UL_UIME''],
              rows = [dbfRow [''100'', ''Main St''], dbfRow [''101'', []]]\<rparr>) ''UL_MID'' ''UL_UIME'' of
      Inr table \<Rightarrow> table ''100'' = Some ''Main St'' \<and> ''101'' \<notin> dom table
    | Inl e \<Rightarrow> False)
   \<and> (case readShapefileToMap asciiLib (Some streetsFile) ''UL_MID'' ''UL_UIME'' of
      Inr table \<Rightarrow> table ''100'' = Some ''High St'' \<and> ''101'' \<notin> dom table
    | Inl e \<Rightarrow> False)
   \<and> (case readShapefileToMap asciiLib (Some streetsFile) ''UL_MID'' ''UL_DJ'' of
      Inr table \<Rightarrow> dom table = {}
    | Inl e \<Rightarrow> False)"
proof -
  let ?claim = "\<lparr>fieldNames = [''UL_MID'', ''UL_UIME''],
              rows = [dbfRow [''100'', ''Main St''], dbfRow [''101'', []]]\<rparr>"
  have one: "readShapefileToMap asciiLib (Some ?claim) ''UL_MID'' ''UL_UIME'' =
      Inr (map_of (rev (tableEntries asciiLib 0 1 (rows ?claim))))"
    using readShapefileToMap_table [where lib = asciiLib and k = 0 and v = 1
      and keyColumnName = "''UL_MID''" and valueColumnName = "''UL_UIME''" and shapeReader = ?claim]
    by (simp add: dbfRow_def)
  have two: "readShapefileToMap asciiLib (Some streetsFile) ''UL_MID'' ''UL_UIME'' =
      Inr (map_of (rev (tableEntries asciiLib 0 1 (rows streetsFile))))"
    using readShapefileToMap_table [where lib = asciiLib and k = 0 and v = 1
      and keyColumnName = "''UL_MID''" and valueColumnName = "''UL_UIME''" and shapeReader = streetsFile]
    by (simp add: streetsFile_def dbfRow_def)
  have three: "readShapefileToMap asciiLib (Some streetsFile) ''UL_MID'' ''UL_DJ'' =
      Inr (map_of (rev (tableEntries asciiLib 0 2 (rows streetsFile))))"
    using readShapefileToMap_table [where lib = asciiLib and k = 0 and v = 2
      and keyColumnName = "''UL_MID''" and valueColumnName = "''UL_DJ''" and shapeReader = streetsFile]
    by (simp add: streetsFile_def dbfRow_def)
  show ?thesis
    unfolding one two three by (simp add: streetsFile_def dbfRow_def table_eval)
qed

text \<open>
  Claim C9, as the code has it. For a record that is turned into a feature, whose street
  identifier is not a key of \<open>ulNameMap\<close> and whose settlement identifier is not a key of
  \<open>naNameMap\<close> and has no entry in \<open>naNameDjMap\<close> either (or the empty string there), the
  feature has the property \<open>addr:place\<close> with the empty string, and no other key of the
  place family or of the street family.
\<close>

theorem unnamed_settlement_place_tag:
  assumes "buildFeature lib lk r = Inr f"
    and "Attribute r 5 = Inr ulMid" and "ulNameMap lk ulMid = None"
    and "Attribute r 6 = Inr naMid" and "naNameMap lk naMid = None"
    and "mapIndex (naNameDjMap lk) naMid = ''''"
  shows "properties f tagPlace = Some (AnyString '''')
       \<and> (\<forall>k\<in>tagFamily tagPlace \<union> tagFamily tagStreet. k \<noteq> tagPlace \<longrightarrow> properties f k = None)"
  using assms(1)
proof (cases rule: buildFeature_InrE)
  case (1 labela ptMid dateOd iso hsMid f0 f1)
  from 1(7) have "properties f1 = (properties f0)(tagPlace \<mapsto> AnyString '''')"
  proof (cases rule: setNameTags_cases)
    case (street ulMid' ulName)
    then show ?thesis using assms(2,3) by simp
  next
    case (streetBilingual ulMid' ulName ulNameDj)
    then show ?thesis using assms(2,3) by simp
  next
    case (place ulMid' naMid')
    then show ?thesis using assms(4,5) by (simp add: mapIndex_def)
  next
    case (placeBilingual ulMid' naMid' naNameDj)
    then show ?thesis using assms(4,5,6) by (simp add: mapIndex_def)
  qed
  then show ?thesis unfolding 1(9) 1(6) by (simp add: tagFamily_def tag_defs)
qed

theorem unnamed_settlement_place_tag_witness:
  "ulNameMap sampleLookups [] = None \<and> naNameMap sampleLookups ''99'' = None
   \<and> mapIndex (naNameDjMap sampleLookups) ''99'' = []
   \<and> (case buildFeature asciiLib sampleLookups
              (hsRecord ''77'' ''12a'' [] ''99'' ''1'' ''20200131'' ''V'' 14.6 46.05) of
         Inr f \<Rightarrow> properties f tagPlace = Some (AnyString [])
           \<and> properties f (tagPlace @ tagLangPostfixSlovenian) = None
           \<and> properties f (tagPlace @ tagLangPostfixHungarian) = None
           \<and> properties f (tagPlace @ tagLangPostfixItalian) = None
           \<and> properties f tagStreet = None
       | Inl e \<Rightarrow> False)"
proof -
  let ?r = "hsRecord ''77'' ''12a'' [] ''99'' ''1'' ''20200131'' ''V'' 14.6 46.05"
  have "\<exists>f. buildFeature asciiLib sampleLookups ?r = Inr f"
    by (simp add: build_eval)
  then obtain f where b: "buildFeature asciiLib sampleLookups ?r = Inr f" ..
  have maps: "ulNameMap sampleLookups [] = None" "naNameMap sampleLookups ''99'' = None"
    "mapIndex (naNameDjMap sampleLookups) ''99'' = []"
    by (simp_all add: sampleLookups_def mapIndex_def)
  have cols: "Attribute ?r 5 = Inr []" "Attribute ?r 6 = Inr ''99''"
    by (simp_all add: Attribute_hsRecord)
  from unnamed_settlement_place_tag [OF b cols(1) maps(1) cols(2) maps(2,3)] maps
  show ?thesis
    unfolding b by (simp add: tagFamily_def tag_defs)
qed

text \<open>Claim C9 as stated fails: the settlement \<open>21\<close> has no name in \<open>naNameMap\<close> but has
  one in \<open>naNameDjMap\<close>, and the feature gets a bilingual place tag with its two variants.\<close>

theorem unnamed_settlement_counterexample:
  "ulNameMap sampleLookups [] = None \<and> naNameMap sampleLookups ''21'' = None
   \<and> (case ReadShapefile asciiLib sampleLookups
              (Some (hsFile [hsRecord ''77'' ''12a'' [] ''21'' ''1'' ''20200131'' ''V'' 14.6 46.05])) of
         Inr [f] \<Rightarrow> properties f ''addr:place'' = Some (AnyString '' / Falu'')
           \<and> properties f ''addr:place:sl'' = Some (AnyString [])
           \<and> properties f ''addr:place:hu'' = Some (AnyString ''Falu'')
       | _ \<Rightarrow> False)"
  by (simp add: build_eval)

text \<open>
  Claim C10. Every feature of the collection that \<open>ReadShapefile\<close> returns has the
  properties \<open>addr:postcode\<close> and \<open>addr:housenumber\<close>, each with a string as its value, and
  the comparison function of the sorter returns a truth value, without a failed type
  assertion, on any two features of the collection.
\<close>

theorem sorter_assertions_succeed:
  assumes "ReadShapefile lib lk shapeFile = Inr featureCollection"
  shows "(\<forall>f\<in>set featureCollection. \<exists>p h.
            properties f tagPostCode = Some (AnyString p) \<and> properties f tagHousenumber = Some (AnyString h))
       \<and> (\<forall>fi\<in>set featureCollection. \<forall>fj\<in>set featureCollection. \<exists>b. sortLess lib fi fj = Inr b)"
proof -
  have tags: "\<exists>p h. properties f tagPostCode = Some (AnyString p) \<and> properties f tagHousenumber = Some (AnyString h)"
    and strs: "\<forall>k v. properties f k = Some v \<longrightarrow> (\<exists>s. v = AnyString s)"
    if "f \<in> set featureCollection" for f
  proof -
    from ReadShapefile_member [OF assms that] obtain r where b: "buildFeature lib lk r = Inr f"
      by blast
    then obtain ptMid where "Attribute r 8 = Inr ptMid" by (cases rule: buildFeature_InrE) blast
    from buildFeature_postcode_city(1) [OF b this] buildFeature_housenumber [OF b]
    show "\<exists>p h. properties f tagPostCode = Some (AnyString p) \<and> properties f tagHousenumber = Some (AnyString h)"
      by blast
    from buildFeature_strings [OF b]
    show "\<forall>k v. properties f k = Some v \<longrightarrow> (\<exists>s. v = AnyString s)" .
  qed
  have "\<exists>b. sortLess lib fi fj = Inr b" if "fi \<in> set featureCollection" "fj \<in> set featureCollection" for fi fj
  proof -
    from tags [OF that(1)] tags [OF that(2)] obtain pl hl pr hr where
      "properties fi tagPostCode = Some (AnyString pl)" "properties fj tagPostCode = Some (AnyString pr)"
      "properties fi tagHousenumber = Some (AnyString hl)" "properties fj tagHousenumber = Some (AnyString hr)"
      by blast
    with strs [OF that(1)] strs [OF that(2)] show ?thesis by (rule sortLess_total)
  qed
  then show ?thesis using tags by blast
qed

theorem sorter_assertions_succeed_witness:
  "case ReadShapefile asciiLib sampleLookups
          (Some (hsFile [hsRecord ''77'' ''12a'' ''10'' ''20'' ''1'' ''20200131'' ''V'' 14.6 46.05,
                         hsRecord ''78'' ''12'' ''10'' ''20'' ''999'' ''20200131'' ''V'' 14.6 46.05])) of
     Inr [f, g] \<Rightarrow>
       properties f tagPostCode = Some (AnyString ''1000'')
       \<and> properties f tagHousenumber = Some (AnyString ''12a'')
       \<and> properties g tagPostCode = Some (AnyString [])
       \<and> properties g tagHousenumber = Some (AnyString ''12'')
       \<and> (\<exists>b. sortLess asciiLib f g = Inr b)
       \<and> (\<exists>b. sortLess asciiLib g f = Inr b)
   | _ \<Rightarrow> False"
proof -
  let ?file = "Some (hsFile [hsRecord ''77'' ''12a'' ''10'' ''20'' ''1'' ''20200131'' ''V'' 14.6 46.05,
                     hsRecord ''78'' ''12'' ''10'' ''20'' ''999'' ''20200131'' ''V'' 14.6 46.05])"
  have "\<exists>f g. ReadShapefile asciiLib sampleLookups ?file = Inr [f, g]
      \<and> properties f tagPostCode = Some (AnyString ''1000'')
      \<and> properties f tagHousenumber = Some (AnyString ''12a'')
      \<and> properties g tagPostCode = Some (AnyString [])
      \<and> properties g tagHousenumber = Some (AnyString ''12'')"
    by (simp add: build_eval)
  then obtain f g where run: "ReadShapefile asciiLib sampleLookups ?file = Inr [f, g]"
    and tags: "properties f tagPostCode = Some (AnyString ''1000'')"
      "properties f tagHousenumber = Some (AnyString ''12a'')"
      "properties g tagPostCode = Some (AnyString [])"
      "properties g tagHousenumber = Some (AnyString ''12'')"
    by blast
  from sorter_assertions_succeed [OF run] tags show ?thesis
    unfolding run by simp
qed

section \<open>Further properties\<close>

text \<open>The order of the keys: a house number without a suffix comes before the same number
  with a suffix, and the zeros in front keep the order of the numbers.\<close>

theorem NormalizeHouseNumber_orders:
  "NormalizeHouseNumber lib ''12'' < NormalizeHouseNumber lib ''12a''
   \<and> NormalizeHouseNumber lib ''2'' < NormalizeHouseNumber lib ''12''"
  by (simp add: normalize_eval)

text \<open>The run as a whole: when every record has the status column and every valid record
  has a validity date of 8 bytes or more, \<open>ReadShapefile\<close> returns a collection, with one
  feature per valid record.\<close>

lemma readRecords_succeeds:
  assumes "\<forall>r\<in>set rs. (\<exists>st. Attribute r 12 = Inr st)
             \<and> (\<forall>d. Attribute r 12 = Inr ''V'' \<and> Attribute r 10 = Inr d \<longrightarrow> 8 \<le> length d)"
  shows "\<exists>out. readRecords lib lk rs fc = Inr out
           \<and> length out = length fc + length (filter (\<lambda>r. Attribute r 12 = Inr ''V'') rs)"
  using assms
proof (induction rs arbitrary: fc)
  case Nil
  then show ?case by simp
next
  case (Cons r rs)
  then obtain st where st: "Attribute r 12 = Inr st" by auto
  have rest: "\<And>fc. \<exists>out. readRecords lib lk rs fc = Inr out
           \<and> length out = length fc + length (filter (\<lambda>r. Attribute r 12 = Inr ''V'') rs)"
    using Cons.IH Cons.prems by simp
  show ?case
  proof (cases "st = ''V''")
    case True
    from buildFeature_valid [OF st, of lib lk] obtain d where
      d: "Attribute r 10 = Inr d" and
      b: "if length d < 8 then buildFeature lib lk r = Inl SliceBoundsOutOfRange
          else \<exists>f. buildFeature lib lk r = Inr f"
      by blast
    have "8 \<le> length d" using Cons.prems st True d by simp
    with b obtain f where f: "buildFeature lib lk r = Inr f" by auto
    from rest [of "fc @ [f]"] show ?thesis using st True f by simp
  next
    case False
    from rest [of fc] show ?thesis using st False by simp
  qed
qed

theorem ReadShapefile_succeeds:
  assumes "\<forall>r\<in>set (rows shapeReader). (\<exists>st. Attribute r 12 = Inr st)
             \<and> (\<forall>d. Attribute r 12 = Inr ''V'' \<and> Attribute r 10 = Inr d \<longrightarrow> 8 \<le> length d)"
  shows "\<exists>featureCollection. ReadShapefile lib lk (Some shapeReader) = Inr featureCollection
           \<and> length featureCollection =
               length (filter (\<lambda>r. Attribute r 12 = Inr ''V'') (rows shapeReader))"
  using readRecords_succeeds [OF assms, of lib lk "[]"] by (simp add: ReadShapefile_def)

theorem ReadShapefile_succeeds_witness:
  "case ReadShapefile asciiLib sampleLookups
          (Some (hsFile [hsRecord ''77'' ''12a'' ''10'' ''20'' ''1'' ''20200131'' ''V'' 14.6 46.05,
                         hsRecord ''78'' ''?'' [] [] [] [] ''N'' 0 0,
                         hsRecord ''79'' ''3'' [] ''20'' ''1'' ''xxxxxxxx'' ''V'' 14.6 46.05])) of
     Inr featureCollection \<Rightarrow> length featureCollection = 2
   | Inl e \<Rightarrow> False"
  using ReadShapefile_succeeds [where lib = asciiLib and lk = sampleLookups
      and shapeReader = "hsFile [hsRecord ''77'' ''12a'' ''10'' ''20'' ''1'' ''20200131'' ''V'' 14.6 46.05,
                         hsRecord ''78'' ''?'' [] [] [] [] ''N'' 0 0,
                         hsRecord ''79'' ''3'' [] ''20'' ''1'' ''xxxxxxxx'' ''V'' 14.6 46.05]"]
  by (auto simp add: Attribute_hsRecord)

text \<open>The comparison function is not transitive. Of three features of one postal area, a
  street feature \<open>a\<close> with the house number 1, a place feature \<open>b\<close> with the house number 2
  and a street feature \<open>c\<close> with the house number 3 and a smaller street name, \<open>a\<close> is
  less than \<open>b\<close> and \<open>b\<close> less than \<open>c\<close> by the house numbers (a street and a place are
  not compared), and \<open>c\<close> is less than \<open>a\<close> by the street names.\<close>

theorem sortLess_cycle:
  "case ReadShapefile asciiLib sampleLookups
          (Some (hsFile [hsRecord ''1'' ''1'' ''10'' ''20'' ''1'' ''20200131'' ''V'' 14.6 46.05,
                         hsRecord ''2'' ''2'' [] ''20'' ''1'' ''20200131'' ''V'' 14.6 46.05,
                         hsRecord ''3'' ''3'' ''12'' ''20'' ''1'' ''20200131'' ''V'' 14.6 46.05])) of
     Inr [a, b, c] \<Rightarrow>
       sortLess asciiLib a b = Inr True \<and> sortLess asciiLib b c = Inr True
       \<and> sortLess asciiLib c a = Inr True
   | _ \<Rightarrow> False"
  by (simp add: build_eval sortLess_def compareTag_def propertyAt_def assertString_def
      normalize_eval)

text \<open>The search of the header: when the column names are distinct and the two names
  are different columns of the file, the loop ends with their positions.\<close>

lemma findColumns_distinct_aux:
  assumes "distinct fs" "keyName \<noteq> valName" "0 \<le> i"
    and "a \<noteq> - 1 \<longrightarrow> keyName \<notin> set fs" "b \<noteq> - 1 \<longrightarrow> valName \<notin> set fs"
  shows "fst (findColumns fs i keyName valName (a, b)) =
           (if keyName \<in> set fs then i + int (length (takeWhile (\<lambda>x. x \<noteq> keyName) fs)) else a)
       \<and> snd (findColumns fs i keyName valName (a, b)) =
           (if valName \<in> set fs then i + int (length (takeWhile (\<lambda>x. x \<noteq> valName) fs)) else b)"
  using assms
proof (induction fs arbitrary: i a b)
  case Nil
  then show ?case by simp
next
  case (Cons f fs)
  show ?case
  proof (cases "f = keyName")
    case True
    then have nv: "f \<noteq> valName" using Cons.prems(2) by simp
    have kfs: "keyName \<notin> set fs" using Cons.prems(1) True by simp
    show ?thesis
    proof (cases "b = - 1")
      case True
      from Cons.IH [of "i + 1" i b] Cons.prems kfs True \<open>f = keyName\<close> nv
      show ?thesis by (simp add: Let_def)
    next
      case False
      then have "valName \<notin> set (f # fs)" using Cons.prems(5) by simp
      then show ?thesis using False \<open>f = keyName\<close> kfs Cons.prems(3) by (simp add: Let_def)
    qed
  next
    case nk: False
    show ?thesis
    proof (cases "f = valName")
      case True
      have vfs: "valName \<notin> set fs" using Cons.prems(1) True by simp
      show ?thesis
      proof (cases "a = - 1")
        case a: True
        from Cons.IH [of "i + 1" a i] Cons.prems vfs a True nk
        show ?thesis by (simp add: Let_def)
      next
        case False
        then have "keyName \<notin> set (f # fs)" using Cons.prems(4) by simp
        then show ?thesis using False True vfs Cons.prems(3) nk by (simp add: Let_def)
      qed
    next
      case nv: False
      show ?thesis
      proof (cases "b \<noteq> - 1 \<and> a \<noteq> - 1")
        case True
        then show ?thesis using nk nv Cons.prems(4,5) by (simp add: Let_def)
      next
        case False
        from Cons.IH [of "i + 1" a b] Cons.prems nk nv False
        show ?thesis by (auto simp add: Let_def)
      qed
    qed
  qed
qed

lemma takeWhile_position:
  "distinct xs \<Longrightarrow> n < length xs \<Longrightarrow> length (takeWhile (\<lambda>x. x \<noteq> xs ! n) xs) = n"
proof (induction xs arbitrary: n)
  case Nil
  then show ?case by simp
next
  case (Cons x xs)
  show ?case
  proof (cases n)
    case 0
    then show ?thesis by simp
  next
    case (Suc m)
    then have "xs ! m \<in> set xs" using Cons.prems(2) by simp
    then have "x \<noteq> xs ! m" using Cons.prems(1) by auto
    then show ?thesis using Suc Cons.IH [of m] Cons.prems by simp
  qed
qed

theorem findColumns_distinct:
  assumes "distinct names" and "keyColumnName \<noteq> valueColumnName"
    and "k < length names" "names ! k = keyColumnName"
    and "v < length names" "names ! v = valueColumnName"
  shows "findColumns names 0 keyColumnName valueColumnName (- 1, - 1) = (int k, int v)"
proof -
  have pos: "length (takeWhile (\<lambda>x. x \<noteq> names ! n) names) = n" if "n < length names" for n
    using assms(1) that by (rule takeWhile_position)
  have "keyColumnName \<in> set names" "valueColumnName \<in> set names"
    using assms(3-6) nth_mem by auto
  with findColumns_distinct_aux [OF assms(1,2), of 0 "- 1" "- 1"] pos [OF assms(3)] pos [OF assms(5)]
  show ?thesis
    by (simp add: assms(4,6) prod_eq_iff)
qed

theorem findColumns_distinct_witness:
  "findColumns [''UL_MID'', ''UL_UIME'', ''UL_DJ''] 0 ''UL_MID'' ''UL_DJ'' (- 1, - 1) = (0, 2)"
  using findColumns_distinct [of "[''UL_MID'', ''UL_UIME'', ''UL_DJ'']" "''UL_MID''" "''UL_DJ''" 0 2]
  by simp

text \<open>The comparison function is asymmetric: when it says that one feature is less than
  another, it says that the other is not less than the one.\<close>

lemma compareTag_swap:
  "compareTag tag fi fj = Inr (Some b) \<Longrightarrow> compareTag tag fj fi = Inr (Some (\<not> b))"
  "compareTag tag fi fj = Inr None \<Longrightarrow> compareTag tag fj fi = Inr None"
  by (auto simp add: compareTag_def andThen_def split: if_splits sum.splits)

theorem sortLess_asymmetric:
  assumes "sortLess lib fi fj = Inr True"
  shows "sortLess lib fj fi = Inr False"
proof -
  from assms obtain pl pr where p: "assertString (propertyAt fi tagPostCode) = Inr pl"
      "assertString (propertyAt fj tagPostCode) = Inr pr"
    by (auto simp add: sortLess_def andThen_def split: sum.splits)
  show ?thesis
  proof (cases "pl = pr")
    case False
    then show ?thesis using assms p by (auto simp add: sortLess_def split: if_splits)
  next
    case True
    from assms p True obtain s where s: "compareTag tagStreet fi fj = Inr s"
      by (auto simp add: sortLess_def andThen_def split: sum.splits)
    show ?thesis
    proof (cases s)
      case (Some b)
      then show ?thesis using assms p True s compareTag_swap(1) [of tagStreet fi fj b]
        by (simp add: sortLess_def)
    next
      case None
      from assms p True s None obtain q where q: "compareTag tagPlace fi fj = Inr q"
        by (auto simp add: sortLess_def andThen_def split: sum.splits)
      show ?thesis
      proof (cases q)
        case (Some b)
        then show ?thesis
          using assms p True s None q compareTag_swap(2) [of tagStreet fi fj]
            compareTag_swap(1) [of tagPlace fi fj b]
          by (simp add: sortLess_def)
      next
        case qn: None
        from assms p True s None q qn obtain hl hr where
          h: "assertString (propertyAt fi tagHousenumber) = Inr hl"
             "assertString (propertyAt fj tagHousenumber) = Inr hr"
          by (auto simp add: sortLess_def andThen_def split: sum.splits)
        show ?thesis
          using assms p True s None q qn h compareTag_swap(2) [of tagStreet fi fj]
            compareTag_swap(2) [of tagPlace fi fj]
          by (auto simp add: sortLess_def)
      qed
    qed
  qed
qed

theorem sortLess_asymmetric_witness:
  "case ReadShapefile asciiLib sampleLookups
          (Some (hsFile [hsRecord ''1'' ''1'' ''10'' ''20'' ''1'' ''20200131'' ''V'' 14.6 46.05,
                         hsRecord ''2'' ''2'' [] ''20'' ''1'' ''20200131'' ''V'' 14.6 46.05])) of
     Inr [a, b] \<Rightarrow> sortLess asciiLib a b = Inr True \<and> sortLess asciiLib b a = Inr False
   | _ \<Rightarrow> False"
proof -
  let ?file = "Some (hsFile [hsRecord ''1'' ''1'' ''10'' ''20'' ''1'' ''20200131'' ''V'' 14.6 46.05,
                             hsRecord ''2'' ''2'' [] ''20'' ''1'' ''20200131'' ''V'' 14.6 46.05])"
  have "\<exists>a b. ReadShapefile asciiLib sampleLookups ?file = Inr [a, b]
      \<and> sortLess asciiLib a b = Inr True"
    by (simp add: build_eval sortLess_def compareTag_def propertyAt_def assertString_def
        normalize_eval)
  then obtain a b where run: "ReadShapefile asciiLib sampleLookups ?file = Inr [a, b]"
    and less: "sortLess asciiLib a b = Inr True"
    by blast
  from sortLess_asymmetric [OF less] less show ?thesis
    unfolding run by simp
qed

end
